theory Spec2Isabelle
  imports Main
begin

section \<open>Exceptions\<close>

text \<open>
  The exceptions of the program, as values. Every constructor stands for a subclass of
  Python's \<open>Exception\<close>, so an \<open>except Exception\<close> clause catches each of them;
  \<open>ClientError\<close> is botocore's, the only class the source names in a narrower clause.
  The string is the exception's argument (the missing key, the missing attribute,
  the rejected literal, the service's message).
\<close>

datatype exn =
    KeyError string
  | AttributeError string
  | ValueError string
  | ClientError string
  | OtherError string

section \<open>Configuration (lab\_setup.py, lines 13 to 24)\<close>

text \<open>
  \<open>os.getenv(key, default)\<close>: the value of the variable, or the default when the
  variable is unset. The process environment is a map from names to values.
\<close>

definition getenv :: "(string \<rightharpoonup> string) \<Rightarrow> string \<Rightarrow> string \<Rightarrow> string" where
  "getenv environ key dflt = (case environ key of None \<Rightarrow> dflt | Some v \<Rightarrow> v)"

text \<open>
  \<open>int(s)\<close> for a string, base ten. A character of the model is a code point below
  256. Surrounding whitespace is dropped (tab, line feed, vertical tab, form feed,
  carriage return, space, and the two whitespace code points above 127, next line and
  no-break space; the separators 0x1C to 0x1F are not whitespace for \<open>int\<close>), one sign
  is allowed, and the rest is a non-empty run of decimal digits in which single
  underscores may separate digits. A literal with more than 4300 digits is rejected as
  well (the interpreter's default limit; zeros count, signs and underscores do not).
  Anything rejected raises \<open>ValueError\<close>.
\<close>

definition py_isspace :: "char \<Rightarrow> bool" where
  "py_isspace c = (c \<in> set [CHR 0x09, CHR 0x0A, CHR 0x0B, CHR 0x0C, CHR 0x0D, CHR 0x20,
                             CHR 0x85, CHR 0xA0])"

definition py_strip :: "string \<Rightarrow> string" where
  "py_strip s = rev (dropWhile py_isspace (rev (dropWhile py_isspace s)))"

definition digit_val :: "char \<Rightarrow> nat option" where
  "digit_val c = (let n = (of_char c :: nat) in
                  if 48 \<le> n \<and> n \<le> 57 then Some (n - 48) else None)"

fun digits_from :: "nat \<Rightarrow> string \<Rightarrow> nat option" where
  "digits_from acc [] = Some acc"
| "digits_from acc [c] =
     (case digit_val c of None \<Rightarrow> None | Some v \<Rightarrow> Some (acc * 10 + v))"
| "digits_from acc (c # d # ds) =
     (if c = CHR ''_''
      then (case digit_val d of None \<Rightarrow> None | Some v \<Rightarrow> digits_from (acc * 10 + v) ds)
      else (case digit_val c of None \<Rightarrow> None | Some v \<Rightarrow> digits_from (acc * 10 + v) (d # ds)))"

definition int_max_str_digits :: nat where
  "int_max_str_digits = 4300"

definition py_unsigned :: "string \<Rightarrow> nat option" where
  "py_unsigned s =
     (case s of [] \<Rightarrow> None
      | d # ds \<Rightarrow>
          (case digit_val d of None \<Rightarrow> None
           | Some v \<Rightarrow>
               (case digits_from v ds of None \<Rightarrow> None
                | Some n \<Rightarrow>
                    if length (filter (\<lambda>c. digit_val c \<noteq> None) s) > int_max_str_digits
                    then None else Some n)))"

definition py_int :: "string \<Rightarrow> exn + int" where
  "py_int s =
     (let t = py_strip s;
          r = (case t of [] \<Rightarrow> None
               | c # cs \<Rightarrow>
                   if c = CHR ''+'' then map_option int (py_unsigned cs)
                   else if c = CHR ''-'' then map_option (\<lambda>n. - int n) (py_unsigned cs)
                   else map_option int (py_unsigned t))
      in case r of None \<Rightarrow> Inl (ValueError s) | Some i \<Rightarrow> Inr i)"

record config =
  DBHOST :: string
  DBPORT :: int
  DBNAME :: string
  DBUSER :: string
  DBPASSWORD :: string
  BUCKET_NAME :: string
  OBJECT_KEY :: string
  IAM_ROLE_ARN :: string
  BUCKET_PATH :: string
  ACCOUNT_ID :: string
  PROJECT :: string
  REGION :: string

text \<open>
  The module-level assignments, in the source's order. Only the conversion of
  \<open>DBPORT\<close> can raise; an exception there ends the import of the module.
\<close>

definition read_config :: "(string \<rightharpoonup> string) \<Rightarrow> exn + config" where
  "read_config environ =
     (let dbhost = getenv environ ''DBHOST'' '''' in
      case py_int (getenv environ ''DBPORT'' '''') of
        Inl e \<Rightarrow> Inl e
      | Inr dbport \<Rightarrow>
          Inr \<lparr> DBHOST = dbhost,
                DBPORT = dbport,
                DBNAME = getenv environ ''DBDATABASE'' ''postgres'',
                DBUSER = getenv environ ''DBUSER'' '''',
                DBPASSWORD = getenv environ ''DBPASSWORD'' '''',
                BUCKET_NAME = getenv environ ''BUCKET_NAME'' '''',
                OBJECT_KEY = getenv environ ''OBJECT_KEY'' '''',
                IAM_ROLE_ARN = getenv environ ''IAM_ROLE_ARN'' '''',
                BUCKET_PATH = getenv environ ''BUCKET_PATH'' ''labs/cfn_dependencies/c4w4a1/csv'',
                ACCOUNT_ID = getenv environ ''ACCOUNT_ID'' '''',
                PROJECT = getenv environ ''PROJECT'' ''de-c4w4a1'',
                REGION = getenv environ ''REGION'' ''us-east-1'' \<rparr>)"

section \<open>Events and effects\<close>

text \<open>
  What one invocation does to the outside world is a trace: the calls it issues to its
  collaborators (each with how it ended), the log records it writes, and the completion
  signals that \<open>cfnresponse.send\<close> sends for it.
\<close>

datatype level = INFO | WARNING | ERROR

datatype status = SUCCESS | FAILED

datatype outcome = Returned | Raised exn

datatype call =
    ListDataQualityRulesets
  | DeleteDataQualityRuleset string
  | DeleteJob string
  | GetDatabases
  | GetTables string
  | DeleteTable string string
  | DeleteDatabase string
  | DeleteConnection string
  | DeleteRolePolicy string string
  | DeleteRole string
  | S3Resource
  | ObjectVersionsDelete string
  | S3Client
  | GetObject string string
  | BodyRead
  | SqlSplit string
  | CreateEngine string
  | Connect
  | Execute string
  | ConnExit
  | AssumeRole string string

text \<open>
  A log record keeps its level, the text of the message up to the interpolated exception,
  and that exception when the message interpolates one.
\<close>

datatype event =
    Call call outcome
  | Log level string "exn option"
  | Send status

type_synonym trace = "event list"

type_synonym py_dict = "string \<rightharpoonup> string"

text \<open>
  A piece of the program reads the history of the invocation so far and yields its result
  (a value, or the exception it raised) together with the events it added.
\<close>

type_synonym 'a effect = "trace \<Rightarrow> (exn + 'a) \<times> trace"

definition pure_value :: "'a \<Rightarrow> 'a effect" where
  "pure_value x h = (Inr x, [])"

definition raise_exn :: "exn \<Rightarrow> 'a effect" where
  "raise_exn e h = (Inl e, [])"

definition andthen :: "'a effect \<Rightarrow> ('a \<Rightarrow> 'b effect) \<Rightarrow> 'b effect" where
  "andthen m f h =
     (case m h of
        (Inl e, evs) \<Rightarrow> (Inl e, evs)
      | (Inr x, evs) \<Rightarrow> (case f x (h @ evs) of (r, evs') \<Rightarrow> (r, evs @ evs')))"

text \<open>\<open>try: m except Exception as e: handler e\<close>\<close>

definition try_except :: "'a effect \<Rightarrow> (exn \<Rightarrow> 'a effect) \<Rightarrow> 'a effect" where
  "try_except m handler h =
     (case m h of
        (Inl e, evs) \<Rightarrow> (case handler e (h @ evs) of (r, evs') \<Rightarrow> (r, evs @ evs'))
      | (Inr x, evs) \<Rightarrow> (Inr x, evs))"

text \<open>\<open>try: m except ClientError as e: handler e\<close>: any other exception propagates.\<close>

definition try_except_ClientError :: "'a effect \<Rightarrow> (exn \<Rightarrow> 'a effect) \<Rightarrow> 'a effect" where
  "try_except_ClientError m handler h =
     (case m h of
        (Inl (ClientError msg), evs) \<Rightarrow>
           (case handler (ClientError msg) (h @ evs) of (r, evs') \<Rightarrow> (r, evs @ evs'))
      | (r, evs) \<Rightarrow> (r, evs))"

text \<open>\<open>for x in xs: body x\<close>; an exception in the body ends the loop.\<close>

fun for_each :: "'a list \<Rightarrow> ('a \<Rightarrow> unit effect) \<Rightarrow> unit effect" where
  "for_each [] body = pure_value ()"
| "for_each (x # xs) body = andthen (body x) (\<lambda>_. for_each xs body)"

text \<open>\<open>d[key]\<close> on a dict: \<open>KeyError\<close> when the key is absent.\<close>

definition subscript :: "(string \<rightharpoonup> 'v) \<Rightarrow> string \<Rightarrow> 'v effect" where
  "subscript d key h = (case d key of None \<Rightarrow> (Inl (KeyError key), []) | Some v \<Rightarrow> (Inr v, []))"

text \<open>A call to a collaborator: the collaborator decides the result from the history.\<close>

definition perform :: "call \<Rightarrow> (trace \<Rightarrow> exn + 'a) \<Rightarrow> 'a effect" where
  "perform c collaborator h =
     (case collaborator h of
        Inl e \<Rightarrow> (Inl e, [Call c (Raised e)])
      | Inr x \<Rightarrow> (Inr x, [Call c Returned]))"

definition logger :: "level \<Rightarrow> string \<Rightarrow> exn option \<Rightarrow> unit effect" where
  "logger lvl msg e h = (Inr (), [Log lvl msg e])"

text \<open>
  Modelled from the spec: \<open>cfnresponse.send(event, context, status, response_data)\<close>,
  whose module is not under src/. The signal is delivered to the URL supplied in the
  event and carries the stack, request and logical resource identifiers of the event
  (section 6), so \<open>send\<close> reads \<open>ResponseURL\<close>, \<open>StackId\<close>, \<open>RequestId\<close> and
  \<open>LogicalResourceId\<close> from the event, in this order, and raises \<open>KeyError\<close> at the
  first one that is absent, before anything is sent. With the four keys present the
  signal is sent and \<open>send\<close> returns; the physical resource id of the signal comes from
  the invocation context, not from the event.
\<close>

definition put_response :: "status \<Rightarrow> unit effect" where
  "put_response st h = (Inr (), [Send st])"

definition cfnresponse_send :: "py_dict \<Rightarrow> status \<Rightarrow> unit effect" where
  "cfnresponse_send event st =
     andthen (subscript event ''ResponseURL'')
       (\<lambda>response_url. andthen (subscript event ''StackId'')
       (\<lambda>stack_id. andthen (subscript event ''RequestId'')
       (\<lambda>request_id. andthen (subscript event ''LogicalResourceId'')
       (\<lambda>logical_resource_id. put_response st))))"

section \<open>Collaborators\<close>

text \<open>
  The service clients and libraries the module calls. Each result may depend on everything
  that happened before in the invocation (the history), so a call repeated with the same
  arguments may end differently. A \<open>boto3\<close> response is a dict; the values read from it
  are lists of dicts (catalog listings), a dict (credentials) or a body whose
  \<open>read().decode("utf-8")\<close> gives the text or raises.
\<close>

record env =
  glue_list_data_quality_rulesets :: "trace \<Rightarrow> exn + (string \<rightharpoonup> py_dict list)"
  glue_delete_job :: "trace \<Rightarrow> string \<Rightarrow> exn + unit"
  glue_get_databases :: "trace \<Rightarrow> exn + (string \<rightharpoonup> py_dict list)"
  glue_get_tables :: "trace \<Rightarrow> string \<Rightarrow> exn + (string \<rightharpoonup> py_dict list)"
  glue_delete_table :: "trace \<Rightarrow> string \<Rightarrow> string \<Rightarrow> exn + unit"
  glue_delete_database :: "trace \<Rightarrow> string \<Rightarrow> exn + unit"
  glue_delete_connection :: "trace \<Rightarrow> string \<Rightarrow> exn + unit"
  iam_delete_role_policy :: "trace \<Rightarrow> string \<Rightarrow> string \<Rightarrow> exn + unit"
  iam_delete_role :: "trace \<Rightarrow> string \<Rightarrow> exn + unit"
  boto3_resource_s3 :: "trace \<Rightarrow> exn + unit"
  object_versions_delete :: "trace \<Rightarrow> string \<Rightarrow> exn + unit"
  boto3_client_s3 :: "trace \<Rightarrow> exn + unit"
  s3_get_object :: "trace \<Rightarrow> string \<Rightarrow> string \<Rightarrow> exn + (string \<rightharpoonup> exn + string)"
  sqlparse_split :: "trace \<Rightarrow> string \<Rightarrow> exn + string list"
  sa_create_engine :: "trace \<Rightarrow> string \<Rightarrow> exn + unit"
  engine_connect :: "trace \<Rightarrow> exn + unit"
  conn_execute :: "trace \<Rightarrow> string \<Rightarrow> exn + unit"
  conn_exit :: "trace \<Rightarrow> exn + unit"
  sts_client_assume_role :: "trace \<Rightarrow> string \<Rightarrow> string \<Rightarrow> exn + (string \<rightharpoonup> py_dict)"

section \<open>The module (lab\_setup.py)\<close>

definition CREATE :: string where
  "CREATE = ''Create''"

definition DELETE :: string where
  "DELETE = ''Delete''"

definition glue_jobs :: "config \<Rightarrow> string list" where
  "glue_jobs cfg =
     [PROJECT cfg @ ''-api-users-extract-job'',
      PROJECT cfg @ ''-api-sessions-extract-job'',
      PROJECT cfg @ ''-rds-extract-job'',
      PROJECT cfg @ ''-json-transform-job'',
      PROJECT cfg @ ''-songs-transform-job'']"

definition s3_buckets :: "config \<Rightarrow> string list" where
  "s3_buckets cfg =
     [PROJECT cfg @ ''-'' @ ACCOUNT_ID cfg @ ''-'' @ REGION cfg @ ''-scripts'',
      PROJECT cfg @ ''-'' @ ACCOUNT_ID cfg @ ''-'' @ REGION cfg @ ''-data-lake'',
      PROJECT cfg @ ''-'' @ ACCOUNT_ID cfg @ ''-'' @ REGION cfg @ ''-dags'',
      PROJECT cfg @ ''-'' @ ACCOUNT_ID cfg @ ''-'' @ REGION cfg @ ''-dbt'']"

text \<open>Lines 49 to 54.\<close>

definition sts_assume_role :: "env \<Rightarrow> string \<Rightarrow> py_dict effect" where
  "sts_assume_role env role_arn =
     andthen (perform (AssumeRole role_arn ''CreatePostgresSession'')
                (\<lambda>h. sts_client_assume_role env h role_arn ''CreatePostgresSession''))
       (\<lambda>session_creds. subscript session_creds ''Credentials'')"

text \<open>Lines 57 to 64.\<close>

definition empty_bucket :: "env \<Rightarrow> string \<Rightarrow> unit effect" where
  "empty_bucket env bucket_name =
     try_except
       (andthen (perform S3Resource (boto3_resource_s3 env))
          (\<lambda>_. perform (ObjectVersionsDelete bucket_name)
                  (\<lambda>h. object_versions_delete env h bucket_name)))
       (\<lambda>e. logger WARNING (''Error emptying bucket:'' @ bucket_name @ '' '') (Some e))"

text \<open>Lines 67 to 77.\<close>

definition delete_table :: "env \<Rightarrow> string \<Rightarrow> string \<Rightarrow> unit effect" where
  "delete_table env database_name table_name =
     try_except
       (andthen (perform (DeleteTable database_name table_name)
                   (\<lambda>h. glue_delete_table env h database_name table_name))
          (\<lambda>_. logger INFO (''Deleted table: '' @ database_name @ ''.'' @ table_name) None))
       (\<lambda>e. andthen (logger WARNING ''Error details: . '' (Some e))
          (\<lambda>_. logger INFO (''Couldn't delete table: '' @ database_name @ ''.'' @ table_name)
                  None))"

text \<open>Lines 80 to 89.\<close>

definition delete_database :: "env \<Rightarrow> string \<Rightarrow> unit effect" where
  "delete_database env database_name =
     try_except
       (andthen (perform (DeleteDatabase database_name)
                   (\<lambda>h. glue_delete_database env h database_name))
          (\<lambda>_. logger INFO (''Deleted database: '' @ database_name) None))
       (\<lambda>e. andthen (logger WARNING ''Error details: . '' (Some e))
          (\<lambda>_. logger INFO (''Couldn't delete database: '' @ database_name) None))"

subsection \<open>terraform\_cleanup (lines 92 to 157)\<close>

text \<open>
  Lines 94 to 103. In line 99 the receiver of \<open>delete_data_quality_ruleset\<close> is
  \<open>glue_rulesets\<close>, the dict that line 95 got back from the service, and a dict has no
  such attribute: once the name of a rule set has been read, the attribute lookup raises
  \<open>AttributeError\<close>, before any call is made.
\<close>

definition cleanup_rulesets :: "env \<Rightarrow> unit effect" where
  "cleanup_rulesets env =
     try_except
       (andthen (perform ListDataQualityRulesets (glue_list_data_quality_rulesets env))
          (\<lambda>glue_rulesets.
        andthen (subscript glue_rulesets ''Rulesets'')
          (\<lambda>glue_rulesets_list.
        for_each glue_rulesets_list
          (\<lambda>glue_ruleset.
             andthen (subscript glue_ruleset ''Name'')
               (\<lambda>glue_ruleset_name.
                  raise_exn (AttributeError ''delete_data_quality_ruleset''))))))
       (\<lambda>e. logger INFO ''Failed to delete glue rulesets. Exception: '' (Some e))"

text \<open>Lines 105 to 111.\<close>

definition cleanup_jobs :: "env \<Rightarrow> config \<Rightarrow> unit effect" where
  "cleanup_jobs env cfg =
     for_each (glue_jobs cfg)
       (\<lambda>job_name.
          try_except
            (andthen (perform (DeleteJob job_name) (\<lambda>h. glue_delete_job env h job_name))
               (\<lambda>_. logger INFO (''Deleted Glue job: '' @ job_name) None))
            (\<lambda>e. logger INFO (''Glue job: '' @ job_name @ '' does not exist. Exception: '')
                    (Some e)))"

text \<open>Lines 116 to 124: the body of the loop over the databases.\<close>

definition walk_database :: "env \<Rightarrow> py_dict \<Rightarrow> unit effect" where
  "walk_database env glue_database =
     andthen (subscript glue_database ''Name'')
       (\<lambda>glue_database_name.
          if ''default'' = glue_database_name then pure_value ()
          else
            andthen (perform (GetTables glue_database_name)
                       (\<lambda>h. glue_get_tables env h glue_database_name))
              (\<lambda>glue_tables.
            andthen (subscript glue_tables ''TableList'')
              (\<lambda>glue_table_list.
            andthen (for_each glue_table_list
                       (\<lambda>table.
                          andthen (subscript table ''Name'')
                            (\<lambda>glue_table_name.
                               delete_table env glue_database_name glue_table_name)))
              (\<lambda>_. delete_database env glue_database_name))))"

text \<open>Lines 112 to 127.\<close>

definition cleanup_catalog :: "env \<Rightarrow> unit effect" where
  "cleanup_catalog env =
     try_except
       (andthen (perform GetDatabases (glue_get_databases env))
          (\<lambda>glue_databases.
        andthen (subscript glue_databases ''DatabaseList'')
          (\<lambda>glue_database_list.
        for_each glue_database_list (walk_database env))))
       (\<lambda>e. logger INFO ''Failed to delete glue databases. Exception: '' (Some e))"

text \<open>Lines 129 to 135.\<close>

definition cleanup_connection :: "env \<Rightarrow> config \<Rightarrow> unit effect" where
  "cleanup_connection env cfg =
     (let connection_name = PROJECT cfg @ ''-connection-rds'' in
      try_except
        (andthen (perform (DeleteConnection connection_name)
                    (\<lambda>h. glue_delete_connection env h connection_name))
           (\<lambda>_. logger INFO (''Deleted Glue connection: '' @ connection_name) None))
        (\<lambda>e. logger INFO
                (''Glue connection: '' @ connection_name @ '' does not exist. Exception: '')
                (Some e)))"

text \<open>Lines 137 to 157.\<close>

definition cleanup_iam :: "env \<Rightarrow> config \<Rightarrow> unit effect" where
  "cleanup_iam env cfg =
     (let iam_role = PROJECT cfg @ ''-glue-role'';
          iam_policy = PROJECT cfg @ ''-glue-role-policy'' in
      try_except_ClientError
        (andthen
           (try_except
              (andthen (perform (DeleteRolePolicy iam_role iam_policy)
                          (\<lambda>h. iam_delete_role_policy env h iam_role iam_policy))
                 (\<lambda>_. logger INFO
                         (''Deleted policy: '' @ iam_policy @ '' from role: '' @ iam_role) None))
              (\<lambda>e. logger INFO
                      (''Cannot delete policy '' @ iam_policy @ '' from '' @ iam_role
                         @ ''. Exception: '')
                      (Some e)))
           (\<lambda>_.
            try_except
              (andthen (perform (DeleteRole iam_role) (\<lambda>h. iam_delete_role env h iam_role))
                 (\<lambda>_. logger INFO (''Deleted IAM role: '' @ iam_role) None))
              (\<lambda>e. logger INFO (''IAM role '' @ iam_role @ '' not found. Exception: '')
                      (Some e))))
        (\<lambda>e. logger INFO ''IAM role or policy do not exist. Exception: '' (Some e)))"

definition terraform_cleanup :: "env \<Rightarrow> config \<Rightarrow> unit effect" where
  "terraform_cleanup env cfg =
     andthen (cleanup_rulesets env)
       (\<lambda>_. andthen (cleanup_jobs env cfg)
       (\<lambda>_. andthen (cleanup_catalog env)
       (\<lambda>_. andthen (cleanup_connection env cfg)
       (\<lambda>_. cleanup_iam env cfg))))"

subsection \<open>lambda\_handler (lines 160 to 228)\<close>

definition sq :: string where
  "sq = [CHR 0x27]"

text \<open>\<open>format_load.format(...)\<close>, lines 160 to 164 and 191 to 197.\<close>

definition format_load :: "string \<Rightarrow> string \<Rightarrow> string \<Rightarrow> string \<Rightarrow> string \<Rightarrow> string" where
  "format_load bucket_name bucket_path access_key secret_key session_token =
     ''SELECT aws_s3.table_import_from_s3(\<newline>   '' @ sq @ ''deftunes.songs'' @ sq @ '', ''
     @ sq @ sq @ '', '' @ sq @ ''(format csv, HEADER true)'' @ sq
     @ '',\<newline>   aws_commons.create_s3_uri('' @ sq @ bucket_name @ sq @ '','' @ sq
     @ bucket_path @ ''/songs.csv'' @ sq @ '','' @ sq @ ''us-east-1'' @ sq
     @ ''),\<newline>   aws_commons.create_aws_credentials('' @ sq @ access_key @ sq @ '', ''
     @ sq @ secret_key @ sq @ '', '' @ sq @ session_token @ sq @ '')\<newline>);''"

text \<open>
  Lines 171 to 185: the pre-clean, the fetch and split of the script, the engine and the
  connection. The result is \<open>sql_list\<close>.
\<close>

definition create_prologue :: "env \<Rightarrow> config \<Rightarrow> string list effect" where
  "create_prologue env cfg =
     andthen (terraform_cleanup env cfg)
       (\<lambda>_. andthen (logger INFO ''SQLAlchemy version '' None)
       (\<lambda>_. andthen (perform S3Client (boto3_client_s3 env))
       (\<lambda>_. andthen (perform (GetObject (BUCKET_NAME cfg) (OBJECT_KEY cfg))
                       (\<lambda>h. s3_get_object env h (BUCKET_NAME cfg) (OBJECT_KEY cfg)))
       (\<lambda>response. andthen (logger INFO ''response:  '' None)
       (\<lambda>_. andthen (subscript response ''Body'')
       (\<lambda>body. andthen (perform BodyRead (\<lambda>h. body))
       (\<lambda>sql_statement. andthen (perform (SqlSplit sql_statement)
                                   (\<lambda>h. sqlparse_split env h sql_statement))
       (\<lambda>sql_list. andthen (perform (CreateEngine
                                        (''postgresql+psycopg2://'' @ DBUSER cfg @ '':''
                                           @ DBPASSWORD cfg @ ''@'' @ DBHOST cfg @ ''/''
                                           @ DBNAME cfg))
                               (\<lambda>h. sa_create_engine env h
                                        (''postgresql+psycopg2://'' @ DBUSER cfg @ '':''
                                           @ DBPASSWORD cfg @ ''@'' @ DBHOST cfg @ ''/''
                                           @ DBNAME cfg)))
       (\<lambda>_. andthen (perform Connect (engine_connect env))
       (\<lambda>_. pure_value sql_list))))))))))"

text \<open>Lines 186 to 200: the body of the \<open>with\<close> block.\<close>

definition populate :: "env \<Rightarrow> config \<Rightarrow> string list \<Rightarrow> unit effect" where
  "populate env cfg sql_list =
     andthen (for_each sql_list
                (\<lambda>statement. perform (Execute statement) (\<lambda>h. conn_execute env h statement)))
       (\<lambda>_. andthen (sts_assume_role env (IAM_ROLE_ARN cfg))
       (\<lambda>session_token. andthen (subscript session_token ''AccessKeyId'')
       (\<lambda>access_key. andthen (subscript session_token ''SecretAccessKey'')
       (\<lambda>secret_key. andthen (subscript session_token ''SessionToken'')
       (\<lambda>token.
          perform (Execute (format_load (BUCKET_NAME cfg) (BUCKET_PATH cfg)
                              access_key secret_key token))
            (\<lambda>h. conn_execute env h
                    (format_load (BUCKET_NAME cfg) (BUCKET_PATH cfg)
                       access_key secret_key token)))))))"

text \<open>
  Leaving the \<open>with\<close> block releases the connection whether or not the body raised. The
  release does not swallow an exception of the body; one raised by the release itself
  takes its place.
\<close>

definition with_exit :: "env \<Rightarrow> unit effect \<Rightarrow> unit effect" where
  "with_exit env body h =
     (case body h of
        (r, evs) \<Rightarrow>
          (case conn_exit env (h @ evs) of
             Inl e \<Rightarrow> (Inl e, evs @ [Call ConnExit (Raised e)])
           | Inr _ \<Rightarrow> (r, evs @ [Call ConnExit Returned])))"

text \<open>Lines 171 to 200: the Create branch.\<close>

definition create_path :: "env \<Rightarrow> config \<Rightarrow> unit effect" where
  "create_path env cfg =
     andthen (create_prologue env cfg) (\<lambda>sql_list. with_exit env (populate env cfg sql_list))"

text \<open>Lines 203 to 224: the Delete branch.\<close>

definition delete_path :: "env \<Rightarrow> config \<Rightarrow> py_dict \<Rightarrow> unit effect" where
  "delete_path env cfg event =
     andthen (for_each (s3_buckets cfg) (empty_bucket env))
       (\<lambda>_. andthen (subscript event ''PhysicalResourceId'')
       (\<lambda>physical_resource_id. andthen (subscript event ''StackId'')
       (\<lambda>stack_id. andthen (subscript event ''RequestId'')
       (\<lambda>request_id. andthen (subscript event ''LogicalResourceId'')
       (\<lambda>logical_resource_id. andthen (subscript event ''ResponseURL'')
       (\<lambda>response_url. logger INFO ''curl_command: '' None))))))"

definition lambda_handler :: "env \<Rightarrow> config \<Rightarrow> py_dict \<Rightarrow> unit effect" where
  "lambda_handler env cfg event =
     andthen (logger WARNING ''Event: '' None)
       (\<lambda>_. try_except
          (andthen (subscript event ''RequestType'')
             (\<lambda>request_type.
           andthen (if request_type = CREATE then create_path env cfg else pure_value ())
             (\<lambda>_.
           andthen (subscript event ''RequestType'')
             (\<lambda>request_type.
           andthen (if request_type = DELETE then delete_path env cfg event
                    else pure_value ())
             (\<lambda>_. cfnresponse_send event SUCCESS)))))
          (\<lambda>exc. andthen (logger ERROR ''Error: '' (Some exc))
             (\<lambda>_. cfnresponse_send event FAILED)))"

section \<open>Observations on traces\<close>

text \<open>The calls of a trace, in the order they were issued.\<close>

fun calls :: "trace \<Rightarrow> call list" where
  "calls [] = []"
| "calls (Call c out # evs) = c # calls evs"
| "calls (Log lvl msg e # evs) = calls evs"
| "calls (Send st # evs) = calls evs"

text \<open>The completion signals of a trace, in the order they were sent.\<close>

fun signals :: "trace \<Rightarrow> status list" where
  "signals [] = []"
| "signals (Send st # evs) = st # signals evs"
| "signals (Call c out # evs) = signals evs"
| "signals (Log lvl msg e # evs) = signals evs"

text \<open>
  Every call that raised is followed at once by a log record that carries the exception:
  the exception was caught and logged where it arose.
\<close>

fun logs_exn :: "exn \<Rightarrow> trace \<Rightarrow> bool" where
  "logs_exn e (Log lvl msg (Some e') # evs) = (e' = e)"
| "logs_exn e evs = False"

fun raises_logged :: "trace \<Rightarrow> bool" where
  "raises_logged [] = True"
| "raises_logged (Call c (Raised e) # evs) = (logs_exn e evs \<and> raises_logged evs)"
| "raises_logged (ev # evs) = raises_logged evs"

text \<open>
  The calls that make up the fixed sequence of \<open>terraform_cleanup\<close>: all but the
  per-database calls inside the catalog walk.
\<close>

fun step_call :: "call \<Rightarrow> bool" where
  "step_call (GetTables d) = False"
| "step_call (DeleteTable d t) = False"
| "step_call (DeleteDatabase d) = False"
| "step_call c = True"

text \<open>The calls to the identity service.\<close>

fun iam_call :: "call \<Rightarrow> bool" where
  "iam_call (DeleteRolePolicy r p) = True"
| "iam_call (DeleteRole r) = True"
| "iam_call c = False"

text \<open>The keys the Delete branch reads from the event, in the order it reads them.\<close>

definition delete_keys :: "string list" where
  "delete_keys = [''PhysicalResourceId'', ''StackId'', ''RequestId'', ''LogicalResourceId'',
                  ''ResponseURL'']"

text \<open>
  The keys \<open>cfnresponse.send\<close> reads from the event, in the order it reads them; an
  event that carries them all can be answered.
\<close>

definition send_keys :: "string list" where
  "send_keys = [''ResponseURL'', ''StackId'', ''RequestId'', ''LogicalResourceId'']"

definition answerable :: "py_dict \<Rightarrow> bool" where
  "answerable event = list_all (\<lambda>key. event key \<noteq> None) send_keys"

text \<open>
  A lifecycle event: it can be answered, the request type is present, and a Delete event
  carries the physical resource id, the one key the Delete branch reads beyond those of
  \<open>send\<close>. (A record with all six fields of the specification's \<open>LifecycleEvent\<close>
  is such an event, whatever its request type; so is a Create event, which has no
  physical resource id yet.)
\<close>

definition lifecycle_event :: "py_dict \<Rightarrow> bool" where
  "lifecycle_event event =
     (answerable event
      \<and> (case event ''RequestType'' of
            None \<Rightarrow> False
          | Some request_type \<Rightarrow>
              request_type = DELETE \<longrightarrow> event ''PhysicalResourceId'' \<noteq> None))"

text \<open>For the proofs: a piece of the program that sends no completion signal.\<close>

definition silent :: "'a effect \<Rightarrow> bool" where
  "silent m = (\<forall>h. signals (snd (m h)) = [])"

text \<open>The calls of \<open>empty_bucket\<close>.\<close>

fun bucket_call :: "call \<Rightarrow> bool" where
  "bucket_call S3Resource = True"
| "bucket_call (ObjectVersionsDelete b) = True"
| "bucket_call c = False"

text \<open>The events of statements that were executed one after the other without error.\<close>

definition executed :: "string list \<Rightarrow> trace" where
  "executed statements = map (\<lambda>statement. Call (Execute statement) Returned) statements"

text \<open>The calls of the provisioning step on the open connection.\<close>

fun provisioning_call :: "call \<Rightarrow> bool" where
  "provisioning_call (Execute statement) = True"
| "provisioning_call (AssumeRole arn name) = True"
| "provisioning_call ConnExit = True"
| "provisioning_call c = False"

text \<open>For the proofs: a piece of the program that issues no call of a given kind.\<close>

definition never_calls :: "(call \<Rightarrow> bool) \<Rightarrow> 'a effect \<Rightarrow> bool" where
  "never_calls P m = (\<forall>h. filter P (calls (snd (m h))) = [])"

text \<open>The catalog calls aimed at the built-in database.\<close>

fun targets_default :: "call \<Rightarrow> bool" where
  "targets_default (GetTables d) = (d = ''default'')"
| "targets_default (DeleteTable d t) = (d = ''default'')"
| "targets_default (DeleteDatabase d) = (d = ''default'')"
| "targets_default c = False"

text \<open>The deletion attempts on catalog databases.\<close>

fun is_delete_database :: "call \<Rightarrow> bool" where
  "is_delete_database (DeleteDatabase d) = True"
| "is_delete_database c = False"

text \<open>
  For the proofs: the events \<open>pre\<close> issued before a deletion of database \<open>d\<close> end with
  the enumeration of the tables of \<open>d\<close> and one deletion attempt for each table named
  by that enumeration; and a piece of the program all of whose database deletions are
  preceded in this way.
\<close>

definition tables_deleted_first :: "env \<Rightarrow> trace \<Rightarrow> trace \<Rightarrow> string \<Rightarrow> bool" where
  "tables_deleted_first env h pre d =
     (\<exists>pre0 response tables names block.
        pre = pre0 @ Call (GetTables d) Returned # block
        \<and> glue_get_tables env (h @ pre0) d = Inr response
        \<and> response ''TableList'' = Some tables
        \<and> map (\<lambda>table. table ''Name'') tables = map Some names
        \<and> calls block = map (DeleteTable d) names)"

definition ordered :: "env \<Rightarrow> 'a effect \<Rightarrow> bool" where
  "ordered env m =
     (\<forall>h pre d out post.
        snd (m h) = pre @ Call (DeleteDatabase d) out # post
        \<longrightarrow> d \<noteq> ''default'' \<and> tables_deleted_first env h pre d)"

text \<open>
  For the proofs: the exception a piece of the program lets escape still has to be logged
  by whoever catches it.
\<close>

definition pending :: "exn + 'a \<Rightarrow> trace" where
  "pending r = (case r of Inl e \<Rightarrow> [Log INFO [] (Some e)] | Inr x \<Rightarrow> [])"

definition well_logged :: "'a effect \<Rightarrow> bool" where
  "well_logged m = (\<forall>h. raises_logged (snd (m h) @ pending (fst (m h))))"

section \<open>Sample inputs\<close>

text \<open>
  A configuration and an account state on which the program can be run: one rule set,
  the built-in database and one database with two tables, a script of three statements,
  every call succeeding. The variants change one collaborator each.
\<close>

definition sample_config :: config where
  "sample_config =
     \<lparr> DBHOST = ''db.example.com'', DBPORT = 5432, DBNAME = ''postgres'',
       DBUSER = ''admin'', DBPASSWORD = ''secret'', BUCKET_NAME = ''lab-bucket'',
       OBJECT_KEY = ''setup.sql'', IAM_ROLE_ARN = ''arn:aws:iam::1:role/import'',
       BUCKET_PATH = ''labs/cfn_dependencies/c4w4a1/csv'', ACCOUNT_ID = ''1'',
       PROJECT = ''de-c4w4a1'', REGION = ''us-east-1'' \<rparr>"

definition sample_env :: env where
  "sample_env =
     \<lparr> glue_list_data_quality_rulesets =
         (\<lambda>h. Inr [''Rulesets'' \<mapsto> [[''Name'' \<mapsto> ''ruleset-1'']]]),
       glue_delete_job = (\<lambda>h job. Inr ()),
       glue_get_databases =
         (\<lambda>h. Inr [''DatabaseList'' \<mapsto> [[''Name'' \<mapsto> ''default''], [''Name'' \<mapsto> ''db1'']]]),
       glue_get_tables =
         (\<lambda>h d. Inr [''TableList'' \<mapsto> [[''Name'' \<mapsto> ''t1''], [''Name'' \<mapsto> ''t2'']]]),
       glue_delete_table = (\<lambda>h d t. Inr ()),
       glue_delete_database = (\<lambda>h d. Inr ()),
       glue_delete_connection = (\<lambda>h c. Inr ()),
       iam_delete_role_policy = (\<lambda>h r p. Inr ()),
       iam_delete_role = (\<lambda>h r. Inr ()),
       boto3_resource_s3 = (\<lambda>h. Inr ()),
       object_versions_delete = (\<lambda>h b. Inr ()),
       boto3_client_s3 = (\<lambda>h. Inr ()),
       s3_get_object = (\<lambda>h b k. Inr [''Body'' \<mapsto> Inr ''a; b; c;'']),
       sqlparse_split = (\<lambda>h text. Inr [''a;'', ''b;'', ''c;'']),
       sa_create_engine = (\<lambda>h url. Inr ()),
       engine_connect = (\<lambda>h. Inr ()),
       conn_execute = (\<lambda>h statement. Inr ()),
       conn_exit = (\<lambda>h. Inr ()),
       sts_client_assume_role =
         (\<lambda>h arn name.
            Inr [''Credentials'' \<mapsto>
                   [''AccessKeyId'' \<mapsto> ''AK'', ''SecretAccessKey'' \<mapsto> ''SK'',
                    ''SessionToken'' \<mapsto> ''TK'']]) \<rparr>"

text \<open>The database driver rejects the second statement of the script.\<close>

definition sample_env_bad_statement :: env where
  "sample_env_bad_statement =
     sample_env \<lparr> conn_execute :=
       (\<lambda>h statement. if statement = ''b;'' then Inl (OtherError ''syntax error'') else Inr ()) \<rparr>"

text \<open>The script is empty: the splitter returns no statement.\<close>

definition sample_env_empty_script :: env where
  "sample_env_empty_script =
     sample_env \<lparr> s3_get_object := (\<lambda>h b k. Inr [''Body'' \<mapsto> Inr '''']),
                  sqlparse_split := (\<lambda>h text. Inr []) \<rparr>"

text \<open>The policy cannot be deleted.\<close>

definition sample_env_policy_fails :: env where
  "sample_env_policy_fails =
     sample_env \<lparr> iam_delete_role_policy := (\<lambda>h r p. Inl (ClientError ''NoSuchEntity'')) \<rparr>"

text \<open>A Create event has no physical resource id yet; a Delete event has one.\<close>

definition create_event :: py_dict where
  "create_event =
     [''RequestType'' \<mapsto> ''Create'', ''StackId'' \<mapsto> ''s'',
      ''RequestId'' \<mapsto> ''r'', ''LogicalResourceId'' \<mapsto> ''l'',
      ''ResponseURL'' \<mapsto> ''https://example.com/response'']"

definition delete_event :: py_dict where
  "delete_event = create_event(''RequestType'' \<mapsto> ''Delete'', ''PhysicalResourceId'' \<mapsto> ''p'')"

text \<open>
  An event of another request type; a Delete event that has lost its response URL; an
  event that has lost its request type.
\<close>

definition update_event :: py_dict where
  "update_event = delete_event(''RequestType'' \<mapsto> ''Update'')"

definition delete_event_without_url :: py_dict where
  "delete_event_without_url =
     [''RequestType'' \<mapsto> ''Delete'', ''PhysicalResourceId'' \<mapsto> ''p'', ''StackId'' \<mapsto> ''s'',
      ''RequestId'' \<mapsto> ''r'', ''LogicalResourceId'' \<mapsto> ''l'']"

definition event_without_request_type :: py_dict where
  "event_without_request_type =
     [''PhysicalResourceId'' \<mapsto> ''p'', ''StackId'' \<mapsto> ''s'', ''RequestId'' \<mapsto> ''r'',
      ''LogicalResourceId'' \<mapsto> ''l'', ''ResponseURL'' \<mapsto> ''https://example.com/response'']"

section \<open>Properties of the combinators\<close>

lemma calls_append [simp]: "calls (xs @ ys) = calls xs @ calls ys"
  by (induction xs rule: calls.induct) auto

lemma signals_append [simp]: "signals (xs @ ys) = signals xs @ signals ys"
  by (induction xs rule: signals.induct) auto

lemma logs_exn_append: "logs_exn e xs \<Longrightarrow> logs_exn e (xs @ ys)"
  by (induction e xs rule: logs_exn.induct) auto

lemma raises_logged_append:
  "raises_logged xs \<Longrightarrow> raises_logged ys \<Longrightarrow> raises_logged (xs @ ys)"
  by (induction xs rule: raises_logged.induct) (auto simp: logs_exn_append)

lemma logs_exn_swap:
  "logs_exn e0 (xs @ [Log l m (Some e)]) \<Longrightarrow> logs_exn e0 (xs @ Log l' m' (Some e) # ys)"
  by (induction e0 xs rule: logs_exn.induct) auto

lemma fst_andthen:
  "fst (andthen m f h) = (case fst (m h) of Inl e \<Rightarrow> Inl e | Inr x \<Rightarrow> fst (f x (h @ snd (m h))))"
  by (auto simp: andthen_def split: prod.splits sum.splits)

lemma snd_andthen:
  "snd (andthen m f h) =
     (case fst (m h) of Inl e \<Rightarrow> snd (m h) | Inr x \<Rightarrow> snd (m h) @ snd (f x (h @ snd (m h))))"
  by (auto simp: andthen_def split: prod.splits sum.splits)

lemma fst_try_except:
  "fst (try_except m handler h) =
     (case fst (m h) of Inl e \<Rightarrow> fst (handler e (h @ snd (m h))) | Inr x \<Rightarrow> Inr x)"
  by (auto simp: try_except_def split: prod.splits sum.splits)

lemma snd_try_except:
  "snd (try_except m handler h) =
     (case fst (m h) of Inl e \<Rightarrow> snd (m h) @ snd (handler e (h @ snd (m h))) | Inr x \<Rightarrow> snd (m h))"
  by (auto simp: try_except_def split: prod.splits sum.splits)

lemma fst_for_each_total:
  "(\<And>x h. fst (body x h) = Inr ()) \<Longrightarrow> fst (for_each xs body h) = Inr ()"
  by (induction xs arbitrary: h) (auto simp: pure_value_def fst_andthen)

lemma snd_for_each_total:
  "(\<And>x h. fst (body x h) = Inr ()) \<Longrightarrow>
   snd (for_each (x # xs) body h) = snd (body x h) @ snd (for_each xs body (h @ snd (body x h)))"
  by (auto simp: snd_andthen)

lemma delete_table_total: "fst (delete_table env d t h) = Inr ()"
  by (auto simp: delete_table_def fst_try_except fst_andthen perform_def logger_def split: sum.splits)

lemma delete_database_total: "fst (delete_database env d h) = Inr ()"
  by (auto simp: delete_database_def fst_try_except fst_andthen perform_def logger_def split: sum.splits)

lemma empty_bucket_total: "fst (empty_bucket env b h) = Inr ()"
  by (auto simp: empty_bucket_def fst_try_except fst_andthen perform_def logger_def split: sum.splits)

lemma cleanup_rulesets_total: "fst (cleanup_rulesets env h) = Inr ()"
  by (auto simp: cleanup_rulesets_def fst_try_except logger_def split: sum.splits)

lemma cleanup_jobs_total: "fst (cleanup_jobs env cfg h) = Inr ()"
  unfolding cleanup_jobs_def
  by (rule fst_for_each_total)
     (auto simp: fst_try_except fst_andthen perform_def logger_def split: sum.splits)

lemma cleanup_catalog_total: "fst (cleanup_catalog env h) = Inr ()"
  by (auto simp: cleanup_catalog_def fst_try_except logger_def split: sum.splits)

lemma cleanup_connection_total: "fst (cleanup_connection env cfg h) = Inr ()"
  by (auto simp: cleanup_connection_def Let_def fst_try_except fst_andthen perform_def logger_def split: sum.splits)

lemma cleanup_iam_body_total:
  "fst (try_except (andthen (perform c col) (\<lambda>_. logger l1 m1 None)) (\<lambda>e. logger l2 m2 (Some e)) h) = Inr ()"
  by (auto simp: fst_try_except fst_andthen perform_def logger_def split: sum.splits)

lemma fst_try_except_ClientError_total:
  "(\<And>h. fst (m h) = Inr ()) \<Longrightarrow> fst (try_except_ClientError m handler h) = Inr ()"
proof -
  assume a: "\<And>h. fst (m h) = Inr ()"
  obtain r evs where m: "m h = (r, evs)" by (cases "m h")
  with a [of h] have "r = Inr ()" by simp
  with m show ?thesis by (simp add: try_except_ClientError_def)
qed

lemma cleanup_iam_total: "fst (cleanup_iam env cfg h) = Inr ()"
  unfolding cleanup_iam_def Let_def
  by (rule fst_try_except_ClientError_total) (simp only: fst_andthen cleanup_iam_body_total sum.case)

lemma terraform_cleanup_total: "fst (terraform_cleanup env cfg h) = Inr ()"
  by (simp only: terraform_cleanup_def fst_andthen cleanup_rulesets_total cleanup_jobs_total
        cleanup_catalog_total cleanup_connection_total cleanup_iam_total sum.case)

lemma snd_terraform_cleanup:
  "snd (terraform_cleanup env cfg h) =
     (let e1 = snd (cleanup_rulesets env h);
          e2 = snd (cleanup_jobs env cfg (h @ e1));
          e3 = snd (cleanup_catalog env (h @ e1 @ e2));
          e4 = snd (cleanup_connection env cfg (h @ e1 @ e2 @ e3));
          e5 = snd (cleanup_iam env cfg (h @ e1 @ e2 @ e3 @ e4))
      in e1 @ e2 @ e3 @ e4 @ e5)"
  by (simp only: terraform_cleanup_def snd_andthen fst_andthen cleanup_rulesets_total cleanup_jobs_total
        cleanup_catalog_total cleanup_connection_total cleanup_iam_total sum.case Let_def append_assoc)


lemma snd_for_each_nil:
  "(\<And>x h. snd (body x h) = []) \<Longrightarrow> snd (for_each xs body h) = []"
  by (induction xs arbitrary: h) (auto simp: pure_value_def snd_andthen split: sum.splits)

lemma filter_calls_for_each_nil:
  "(\<And>x h. filter P (calls (snd (body x h))) = []) \<Longrightarrow>
   filter P (calls (snd (for_each xs body h))) = []"
  by (induction xs arbitrary: h) (auto simp: pure_value_def snd_andthen split: sum.splits)

lemma calls_try_log:
  "calls (snd (try_except (andthen (perform c col) (\<lambda>_. logger l1 m1 None))
                 (\<lambda>e. logger l2 m2 (Some e)) h)) = [c]"
  by (auto simp: snd_try_except fst_andthen snd_andthen perform_def logger_def split: sum.splits)

lemma calls_try_log2:
  "calls (snd (try_except (andthen (perform c col) (\<lambda>_. logger l1 m1 None))
                 (\<lambda>e. andthen (logger l2 m2 (Some e)) (\<lambda>_. logger l3 m3 None)) h)) = [c]"
  by (auto simp: snd_try_except fst_andthen snd_andthen perform_def logger_def split: sum.splits)

lemma calls_delete_table: "calls (snd (delete_table env d t h)) = [DeleteTable d t]"
  unfolding delete_table_def by (rule calls_try_log2)

lemma calls_delete_database: "calls (snd (delete_database env d h)) = [DeleteDatabase d]"
  unfolding delete_database_def by (rule calls_try_log2)

lemma calls_cleanup_rulesets: "calls (snd (cleanup_rulesets env h)) = [ListDataQualityRulesets]"
proof -
  have nil: "\<And>xs h. snd (for_each xs (\<lambda>glue_ruleset. andthen (subscript glue_ruleset ''Name'')
            (\<lambda>glue_ruleset_name. raise_exn (AttributeError ''delete_data_quality_ruleset''))) h) = []"
    by (rule snd_for_each_nil)
       (auto simp: snd_andthen subscript_def raise_exn_def split: option.splits sum.splits)
  show ?thesis
    unfolding cleanup_rulesets_def
    by (auto simp: snd_try_except fst_andthen snd_andthen perform_def subscript_def logger_def nil
             split: sum.splits option.splits)
qed

lemma calls_for_each_jobs:
  "calls (snd (for_each xs (\<lambda>job_name. try_except
            (andthen (perform (DeleteJob job_name) (col job_name)) (\<lambda>_. logger l1 (m1 job_name) None))
            (\<lambda>e. logger l2 (m2 job_name) (Some e))) h)) = map DeleteJob xs"
proof (induction xs arbitrary: h)
  case Nil
  show ?case by (simp add: pure_value_def)
next
  case (Cons x xs)
  have tot: "\<And>x h. fst (try_except
            (andthen (perform (DeleteJob x) (col x)) (\<lambda>_. logger l1 (m1 x) None))
            (\<lambda>e. logger l2 (m2 x) (Some e)) h) = Inr ()"
    by (rule cleanup_iam_body_total)
  show ?case
    by (simp only: for_each.simps snd_andthen tot sum.case calls_append calls_try_log Cons.IH)
       simp
qed

lemma calls_cleanup_jobs: "calls (snd (cleanup_jobs env cfg h)) = map DeleteJob (glue_jobs cfg)"
  unfolding cleanup_jobs_def by (rule calls_for_each_jobs)

lemma filter_calls_tables_loop:
  assumes "\<And>t. \<not> P (DeleteTable d t)"
  shows "filter P (calls (snd (for_each tbls (\<lambda>table. andthen (subscript table ''Name'')
      (\<lambda>glue_table_name. delete_table env d glue_table_name)) h))) = []"
  by (rule filter_calls_for_each_nil)
     (auto simp: snd_andthen subscript_def calls_delete_table assms split: option.splits sum.splits)

lemma filter_calls_walk_database:
  assumes "\<And>d. \<not> P (GetTables d)" and "\<And>d t. \<not> P (DeleteTable d t)"
    and "\<And>d. \<not> P (DeleteDatabase d)"
  shows "filter P (calls (snd (walk_database env db h))) = []"
  unfolding walk_database_def
  by (auto simp: snd_andthen fst_andthen subscript_def pure_value_def perform_def
        filter_calls_tables_loop calls_delete_database assms
        split: option.splits sum.splits)

lemma filter_calls_cleanup_catalog:
  assumes "\<And>d. \<not> P (GetTables d)" and "\<And>d t. \<not> P (DeleteTable d t)"
    and "\<And>d. \<not> P (DeleteDatabase d)"
  shows "filter P (calls (snd (cleanup_catalog env h))) = filter P [GetDatabases]"
  unfolding cleanup_catalog_def
  by (auto simp: snd_try_except snd_andthen fst_andthen subscript_def perform_def logger_def
        filter_calls_for_each_nil [OF filter_calls_walk_database] assms
        split: option.splits sum.splits)

lemma calls_cleanup_connection:
  "calls (snd (cleanup_connection env cfg h)) = [DeleteConnection (PROJECT cfg @ ''-connection-rds'')]"
  unfolding cleanup_connection_def Let_def by (rule calls_try_log)

lemma snd_try_except_ClientError_total:
  "(\<And>h. fst (m h) = Inr ()) \<Longrightarrow> snd (try_except_ClientError m handler h) = snd (m h)"
proof -
  assume a: "\<And>h. fst (m h) = Inr ()"
  obtain r evs where m: "m h = (r, evs)" by (cases "m h")
  with a [of h] have "r = Inr ()" by simp
  with m show ?thesis by (simp add: try_except_ClientError_def)
qed

lemma calls_cleanup_iam:
  "calls (snd (cleanup_iam env cfg h)) =
     [DeleteRolePolicy (PROJECT cfg @ ''-glue-role'') (PROJECT cfg @ ''-glue-role-policy''),
      DeleteRole (PROJECT cfg @ ''-glue-role'')]"
  unfolding cleanup_iam_def Let_def
  apply (subst snd_try_except_ClientError_total)
   apply (simp only: fst_andthen cleanup_iam_body_total sum.case)
  apply (simp only: snd_andthen cleanup_iam_body_total sum.case calls_append calls_try_log)
  apply simp
  done


lemma raises_logged_append_log:
  "raises_logged (xs @ [Log l m (Some e)]) \<Longrightarrow> raises_logged (Log l' m' (Some e) # ys) \<Longrightarrow>
   raises_logged (xs @ Log l' m' (Some e) # ys)"
  by (induction xs rule: raises_logged.induct) (auto simp: logs_exn_swap)

lemma well_loggedD: "well_logged m \<Longrightarrow> raises_logged (snd (m h) @ pending (fst (m h)))"
  by (simp add: well_logged_def)

lemma well_logged_Inr: "well_logged m \<Longrightarrow> fst (m h) = Inr x \<Longrightarrow> raises_logged (snd (m h))"
  using well_loggedD [of m h] by (simp add: pending_def)

lemma well_logged_Inl:
  "well_logged m \<Longrightarrow> fst (m h) = Inl e \<Longrightarrow> raises_logged (snd (m h) @ [Log INFO [] (Some e)])"
  using well_loggedD [of m h] by (simp add: pending_def)

lemma wl_perform: "well_logged (perform c col)"
  by (auto simp: well_logged_def perform_def pending_def split: sum.splits)

lemma wl_logger: "well_logged (logger l m e)"
  by (simp add: well_logged_def logger_def pending_def)

lemma wl_subscript: "well_logged (subscript d k)"
  by (auto simp: well_logged_def subscript_def pending_def split: option.splits)

lemma wl_pure_value: "well_logged (pure_value x)"
  by (simp add: well_logged_def pure_value_def pending_def)

lemma wl_raise_exn: "well_logged (raise_exn e)"
  by (simp add: well_logged_def raise_exn_def pending_def)

lemma wl_andthen:
  assumes m: "well_logged m" and f: "\<And>x. well_logged (f x)"
  shows "well_logged (andthen m f)"
  unfolding well_logged_def
proof
  fix h
  show "raises_logged (snd (andthen m f h) @ pending (fst (andthen m f h)))"
  proof (cases "fst (m h)")
    case (Inl e)
    with well_loggedD [OF m, of h] show ?thesis
      by (simp add: fst_andthen snd_andthen pending_def)
  next
    case (Inr x)
    from m Inr have 1: "raises_logged (snd (m h))"
      by (rule well_logged_Inr)
    have 2: "raises_logged (snd (f x (h @ snd (m h))) @ pending (fst (f x (h @ snd (m h)))))"
      by (rule well_loggedD [OF f])
    from raises_logged_append [OF 1 2] Inr show ?thesis
      by (simp add: fst_andthen snd_andthen)
  qed
qed

lemma wl_for_each: "(\<And>x. well_logged (body x)) \<Longrightarrow> well_logged (for_each xs body)"
  by (induction xs) (auto intro: wl_andthen wl_pure_value)

lemma wl_try_except:
  assumes m: "well_logged m" and k: "\<And>e. well_logged (k e)"
  shows "well_logged (try_except m (\<lambda>e. andthen (logger l msg (Some e)) (\<lambda>_. k e)))"
  unfolding well_logged_def
proof
  fix h
  let ?t = "try_except m (\<lambda>e. andthen (logger l msg (Some e)) (\<lambda>_. k e))"
  show "raises_logged (snd (?t h) @ pending (fst (?t h)))"
  proof (cases "fst (m h)")
    case (Inr x)
    with well_logged_Inr [OF m Inr] show ?thesis
      by (simp add: fst_try_except snd_try_except pending_def)
  next
    case (Inl e)
    let ?h' = "h @ snd (m h) @ [Log l msg (Some e)]"
    from m Inl have 1: "raises_logged (snd (m h) @ [Log INFO [] (Some e)])"
      by (rule well_logged_Inl)
    have "raises_logged (snd (k e ?h') @ pending (fst (k e ?h')))"
      by (rule well_loggedD [OF k])
    then have 2: "raises_logged (Log l msg (Some e) # snd (k e ?h') @ pending (fst (k e ?h')))"
      by simp
    from raises_logged_append_log [OF 1 2] Inl show ?thesis
      by (simp add: fst_try_except snd_try_except fst_andthen snd_andthen logger_def)
  qed
qed

lemma wl_try_except_log:
  assumes m: "well_logged m"
  shows "well_logged (try_except m (\<lambda>e. logger l msg (Some e)))"
proof -
  have eq: "(\<lambda>e. logger l msg (Some e)) = (\<lambda>e. andthen (logger l msg (Some e)) (\<lambda>_. pure_value ()))"
    by (auto simp: fun_eq_iff andthen_def logger_def pure_value_def)
  show ?thesis
    by (subst eq) (rule wl_try_except [OF m wl_pure_value])
qed

lemma wl_try_except_ClientError:
  assumes tot: "\<And>h. fst (m h) = Inr ()" and m: "well_logged m"
  shows "well_logged (try_except_ClientError m handler)"
proof -
  have "try_except_ClientError m handler = m"
  proof
    fix h
    obtain r evs where mh: "m h = (r, evs)" by (cases "m h")
    with tot [of h] have "r = Inr ()" by simp
    with mh show "try_except_ClientError m handler h = m h"
      by (simp add: try_except_ClientError_def)
  qed
  with m show ?thesis by simp
qed

lemma wl_delete_table: "well_logged (delete_table env d t)"
  unfolding delete_table_def
  by (intro wl_try_except wl_andthen wl_perform wl_logger)

lemma wl_delete_database: "well_logged (delete_database env d)"
  unfolding delete_database_def
  by (intro wl_try_except wl_andthen wl_perform wl_logger)

lemma wl_empty_bucket: "well_logged (empty_bucket env b)"
  unfolding empty_bucket_def
  by (intro wl_try_except_log wl_andthen wl_perform)

lemma wl_cleanup_rulesets: "well_logged (cleanup_rulesets env)"
  unfolding cleanup_rulesets_def
  by (intro wl_try_except_log wl_andthen wl_for_each wl_perform wl_subscript wl_raise_exn)

lemma wl_cleanup_jobs: "well_logged (cleanup_jobs env cfg)"
  unfolding cleanup_jobs_def
  by (intro wl_for_each wl_try_except_log wl_andthen wl_perform wl_logger)

lemma wl_walk_database: "well_logged (walk_database env db)"
  unfolding walk_database_def
  by (intro wl_andthen wl_subscript)
     (auto intro!: wl_andthen wl_for_each wl_perform wl_subscript wl_pure_value
        wl_delete_table wl_delete_database)

lemma wl_cleanup_catalog: "well_logged (cleanup_catalog env)"
  unfolding cleanup_catalog_def
  by (intro wl_try_except_log wl_andthen wl_for_each wl_perform wl_subscript wl_walk_database)

lemma wl_cleanup_connection: "well_logged (cleanup_connection env cfg)"
  unfolding cleanup_connection_def Let_def
  by (intro wl_try_except_log wl_andthen wl_perform wl_logger)

lemma wl_cleanup_iam: "well_logged (cleanup_iam env cfg)"
  unfolding cleanup_iam_def Let_def
  by (rule wl_try_except_ClientError)
     (simp only: fst_andthen cleanup_iam_body_total sum.case,
      intro wl_try_except_log wl_andthen wl_perform wl_logger)

lemma wl_terraform_cleanup: "well_logged (terraform_cleanup env cfg)"
  unfolding terraform_cleanup_def
  by (intro wl_andthen wl_cleanup_rulesets wl_cleanup_jobs wl_cleanup_catalog
        wl_cleanup_connection wl_cleanup_iam)

lemma raises_logged_terraform_cleanup: "raises_logged (snd (terraform_cleanup env cfg h))"
  by (rule well_logged_Inr [OF wl_terraform_cleanup terraform_cleanup_total])


section \<open>The handler\<close>

lemma silentD: "silent m \<Longrightarrow> signals (snd (m h)) = []"
  by (simp add: silent_def)

lemma silent_perform: "silent (perform c col)"
  by (auto simp: silent_def perform_def split: sum.splits)

lemma silent_logger: "silent (logger l m e)"
  by (simp add: silent_def logger_def)

lemma silent_subscript: "silent (subscript d k)"
  by (auto simp: silent_def subscript_def split: option.splits)

lemma silent_pure_value: "silent (pure_value x)"
  by (simp add: silent_def pure_value_def)

lemma silent_raise_exn: "silent (raise_exn e)"
  by (simp add: silent_def raise_exn_def)

lemma silent_andthen: "silent m \<Longrightarrow> (\<And>x. silent (f x)) \<Longrightarrow> silent (andthen m f)"
  by (auto simp: silent_def snd_andthen split: sum.splits)

lemma silent_try_except: "silent m \<Longrightarrow> (\<And>e. silent (k e)) \<Longrightarrow> silent (try_except m k)"
  by (auto simp: silent_def snd_try_except split: sum.splits)

lemma silent_try_except_ClientError:
  "silent m \<Longrightarrow> (\<And>e. silent (k e)) \<Longrightarrow> silent (try_except_ClientError m k)"
  unfolding silent_def try_except_ClientError_def
proof
  fix h
  assume m: "\<forall>h. signals (snd (m h)) = []" and k: "\<And>e. \<forall>h. signals (snd (k e h)) = []"
  obtain r evs where mh: "m h = (r, evs)" by (cases "m h")
  with m have evs: "signals evs = []" by (metis snd_conv)
  show "signals (snd (case m h of
          (Inl (ClientError msg), evs) \<Rightarrow>
            (case k (ClientError msg) (h @ evs) of (r, evs') \<Rightarrow> (r, evs @ evs'))
        | (r, evs) \<Rightarrow> (r, evs))) = []"
    using mh evs k by (auto split: sum.splits exn.splits prod.splits) (metis snd_conv)
qed

lemma silent_for_each: "(\<And>x. silent (body x)) \<Longrightarrow> silent (for_each xs body)"
  by (induction xs) (auto intro: silent_andthen silent_pure_value)

lemmas silent_intros = silent_andthen silent_try_except silent_try_except_ClientError
  silent_for_each silent_perform silent_logger silent_subscript silent_pure_value silent_raise_exn

lemma silent_delete_table: "silent (delete_table env d t)"
  unfolding delete_table_def by (intro silent_intros)

lemma silent_delete_database: "silent (delete_database env d)"
  unfolding delete_database_def by (intro silent_intros)

lemma silent_empty_bucket: "silent (empty_bucket env b)"
  unfolding empty_bucket_def by (intro silent_intros)

lemma silent_walk_database: "silent (walk_database env db)"
  unfolding walk_database_def
  by (intro silent_andthen silent_subscript)
     (auto intro!: silent_intros silent_delete_table silent_delete_database)

lemma silent_terraform_cleanup: "silent (terraform_cleanup env cfg)"
  unfolding terraform_cleanup_def cleanup_rulesets_def cleanup_jobs_def cleanup_catalog_def
    cleanup_connection_def cleanup_iam_def Let_def
  by (intro silent_intros silent_walk_database)

lemma silent_with_exit: "silent m \<Longrightarrow> silent (with_exit env m)"
  by (auto simp: silent_def with_exit_def split: prod.splits sum.splits) (metis snd_conv)+

lemma silent_sts_assume_role: "silent (sts_assume_role env arn)"
  unfolding sts_assume_role_def by (intro silent_intros)

lemma silent_create_path: "silent (create_path env cfg)"
  unfolding create_path_def create_prologue_def populate_def
  by (intro silent_intros silent_with_exit silent_terraform_cleanup silent_sts_assume_role)

lemma silent_delete_path: "silent (delete_path env cfg event)"
  unfolding delete_path_def
  by (intro silent_intros silent_empty_bucket)


lemma cfnresponse_send_eq:
  "cfnresponse_send event st h =
     (case find (\<lambda>key. event key = None) send_keys of
        None \<Rightarrow> (Inr (), [Send st])
      | Some key \<Rightarrow> (Inl (KeyError key), []))"
  by (simp add: cfnresponse_send_def put_response_def andthen_def subscript_def send_keys_def
        split: option.splits)

lemma cfnresponse_send_ok:
  "answerable event \<Longrightarrow> cfnresponse_send event st h = (Inr (), [Send st])"
  by (simp add: cfnresponse_send_def put_response_def andthen_def subscript_def send_keys_def
        answerable_def split: option.splits)

lemma lambda_handler_trace:
  assumes "event ''RequestType'' = Some rt" and "answerable event"
  shows "lambda_handler env cfg event h =
     (let h1 = h @ [Log WARNING ''Event: '' None];
          p1 = (if rt = CREATE then create_path env cfg h1 else (Inr (), []))
      in case fst p1 of
           Inl e \<Rightarrow> (Inr (), Log WARNING ''Event: '' None # snd p1
                              @ [Log ERROR ''Error: '' (Some e), Send FAILED])
         | Inr _ \<Rightarrow>
             (let p2 = (if rt = DELETE then delete_path env cfg event (h1 @ snd p1)
                        else (Inr (), []))
              in case fst p2 of
                   Inl e \<Rightarrow> (Inr (), Log WARNING ''Event: '' None # snd p1 @ snd p2
                                      @ [Log ERROR ''Error: '' (Some e), Send FAILED])
                 | Inr _ \<Rightarrow> (Inr (), Log WARNING ''Event: '' None # snd p1 @ snd p2
                                      @ [Send SUCCESS])))"
  using assms
  by (auto simp: lambda_handler_def andthen_def try_except_def subscript_def pure_value_def
        logger_def cfnresponse_send_ok Let_def
        split: prod.splits sum.splits)

lemma lambda_handler_no_request_type:
  assumes "event ''RequestType'' = None" and "answerable event"
  shows "lambda_handler env cfg event h =
     (Inr (), [Log WARNING ''Event: '' None,
               Log ERROR ''Error: '' (Some (KeyError ''RequestType'')), Send FAILED])"
  using assms
  by (simp add: lambda_handler_def andthen_def try_except_def subscript_def logger_def
        cfnresponse_send_ok)

lemma fst_buckets_loop: "fst (for_each bs (empty_bucket env) h) = Inr ()"
  by (rule fst_for_each_total) (rule empty_bucket_total)

lemma fst_delete_path:
  "fst (delete_path env cfg event h) =
     (case find (\<lambda>key. event key = None) delete_keys of
        None \<Rightarrow> Inr () | Some key \<Rightarrow> Inl (KeyError key))"
  by (simp add: delete_path_def fst_andthen fst_buckets_loop delete_keys_def subscript_def
        logger_def split: option.splits)

lemma calls_empty_bucket: "list_all bucket_call (calls (snd (empty_bucket env b h)))"
  by (auto simp: empty_bucket_def snd_try_except snd_andthen fst_andthen perform_def logger_def
        split: sum.splits)

lemma calls_buckets_loop: "list_all bucket_call (calls (snd (for_each bs (empty_bucket env) h)))"
  by (induction bs arbitrary: h)
     (auto simp: pure_value_def snd_andthen calls_empty_bucket split: sum.splits)

lemma calls_delete_path: "list_all bucket_call (calls (snd (delete_path env cfg event h)))"
  by (auto simp: delete_path_def snd_andthen fst_andthen fst_buckets_loop calls_buckets_loop
        subscript_def logger_def split: option.splits sum.splits)


section \<open>The Create branch\<close>

lemma never_callsD: "never_calls P m \<Longrightarrow> filter P (calls (snd (m h))) = []"
  by (simp add: never_calls_def)

lemma never_calls_perform: "\<not> P c \<Longrightarrow> never_calls P (perform c col)"
  by (auto simp: never_calls_def perform_def split: sum.splits)

lemma never_calls_logger: "never_calls P (logger l m e)"
  by (simp add: never_calls_def logger_def)

lemma never_calls_subscript: "never_calls P (subscript d k)"
  by (auto simp: never_calls_def subscript_def split: option.splits)

lemma never_calls_pure_value: "never_calls P (pure_value x)"
  by (simp add: never_calls_def pure_value_def)

lemma never_calls_andthen:
  "never_calls P m \<Longrightarrow> (\<And>x. never_calls P (f x)) \<Longrightarrow> never_calls P (andthen m f)"
  by (auto simp: never_calls_def snd_andthen split: sum.splits)

lemma never_calls_terraform_cleanup:
  assumes "\<not> P ListDataQualityRulesets" and "\<And>j. \<not> P (DeleteJob j)" and "\<not> P GetDatabases"
    and "\<And>d. \<not> P (GetTables d)" and "\<And>d t. \<not> P (DeleteTable d t)"
    and "\<And>d. \<not> P (DeleteDatabase d)" and "\<And>c. \<not> P (DeleteConnection c)"
    and "\<And>r p. \<not> P (DeleteRolePolicy r p)" and "\<And>r. \<not> P (DeleteRole r)"
  shows "never_calls P (terraform_cleanup env cfg)"
  unfolding never_calls_def
  by (simp only: snd_terraform_cleanup Let_def calls_append filter_append
        calls_cleanup_rulesets calls_cleanup_jobs calls_cleanup_connection calls_cleanup_iam
        filter_calls_cleanup_catalog [of P, OF assms(4,5,6)])
     (simp add: assms filter_map comp_def)

lemma never_calls_create_prologue:
  "never_calls provisioning_call (create_prologue env cfg)"
  unfolding create_prologue_def
  by (intro never_calls_andthen never_calls_terraform_cleanup never_calls_perform
        never_calls_logger never_calls_subscript never_calls_pure_value)
     simp_all

lemma silent_create_prologue: "silent (create_prologue env cfg)"
  unfolding create_prologue_def
  by (intro silent_intros silent_terraform_cleanup)

lemma calls_executed: "calls (executed xs) = map Execute xs"
  by (induction xs) (auto simp: executed_def)

lemma signals_executed: "signals (executed xs) = []"
  by (induction xs) (auto simp: executed_def)

lemma for_each_execute_fails:
  assumes "k < length stmts"
    and "\<forall>i<k. conn_execute env (h @ executed (take i stmts)) (stmts ! i) = Inr ()"
    and "conn_execute env (h @ executed (take k stmts)) (stmts ! k) = Inl e"
  shows "for_each stmts
           (\<lambda>statement. perform (Execute statement) (\<lambda>h. conn_execute env h statement)) h
         = (Inl e, executed (take k stmts) @ [Call (Execute (stmts ! k)) (Raised e)])"
  using assms
proof (induction stmts arbitrary: h k)
  case Nil
  then show ?case by simp
next
  case (Cons s ss)
  show ?case
  proof (cases k)
    case 0
    with Cons.prems show ?thesis
      by (simp add: andthen_def perform_def executed_def)
  next
    case (Suc k')
    from Cons.prems(2) Suc have s: "conn_execute env h s = Inr ()"
      by (auto simp: executed_def dest: spec [of _ 0])
    have 1: "k' < length ss" using Cons.prems(1) Suc by simp
    have 2: "\<forall>i<k'. conn_execute env ((h @ [Call (Execute s) Returned]) @ executed (take i ss))
                       (ss ! i) = Inr ()"
    proof (intro allI impI)
      fix i assume "i < k'"
      then have "Suc i < k" using Suc by simp
      with Cons.prems(2) show "conn_execute env ((h @ [Call (Execute s) Returned])
                                 @ executed (take i ss)) (ss ! i) = Inr ()"
        by (auto simp: executed_def dest: spec [of _ "Suc i"])
    qed
    have 3: "conn_execute env ((h @ [Call (Execute s) Returned]) @ executed (take k' ss))
               (ss ! k') = Inl e"
      using Cons.prems(3) Suc by (simp add: executed_def)
    from Cons.IH [OF 1 2 3] s Suc show ?thesis
      by (simp add: andthen_def perform_def executed_def)
  qed
qed

lemma lambda_handler_create:
  assumes "event ''RequestType'' = Some CREATE" and "answerable event"
    and "create_prologue env cfg (h @ [Log WARNING ''Event: '' None]) = (Inr sql_list, evs0)"
  shows "lambda_handler env cfg event h =
     (let p = with_exit env (populate env cfg sql_list)
                (h @ Log WARNING ''Event: '' None # evs0)
      in case fst p of
           Inl e \<Rightarrow> (Inr (), Log WARNING ''Event: '' None # evs0 @ snd p
                              @ [Log ERROR ''Error: '' (Some e), Send FAILED])
         | Inr _ \<Rightarrow> (Inr (), Log WARNING ''Event: '' None # evs0 @ snd p @ [Send SUCCESS]))"
  using assms
  by (auto simp: lambda_handler_trace [of event CREATE] create_path_def andthen_def Let_def
        CREATE_def DELETE_def split: prod.splits sum.splits)

lemma populate_nil_head:
  "\<exists>out rest. snd (populate env cfg [] H)
     = Call (AssumeRole (IAM_ROLE_ARN cfg) ''CreatePostgresSession'') out # rest"
  by (auto simp: populate_def pure_value_def andthen_def sts_assume_role_def perform_def
        subscript_def split: sum.splits option.splits prod.splits)

lemma snd_with_exit:
  "\<exists>out. snd (with_exit env m H) = snd (m H) @ [Call ConnExit out]"
  by (auto simp: with_exit_def split: prod.splits sum.splits)

lemma populate_nil_credentials:
  assumes "sts_client_assume_role env H (IAM_ROLE_ARN cfg) ''CreatePostgresSession'' = Inr response"
    and "response ''Credentials'' = Some creds"
    and "creds ''AccessKeyId'' = Some access_key"
    and "creds ''SecretAccessKey'' = Some secret_key"
    and "creds ''SessionToken'' = Some token"
  shows "populate env cfg [] H =
     (case conn_execute env
             (H @ [Call (AssumeRole (IAM_ROLE_ARN cfg) ''CreatePostgresSession'') Returned])
             (format_load (BUCKET_NAME cfg) (BUCKET_PATH cfg) access_key secret_key token) of
        Inl e \<Rightarrow>
          (Inl e, [Call (AssumeRole (IAM_ROLE_ARN cfg) ''CreatePostgresSession'') Returned,
                   Call (Execute (format_load (BUCKET_NAME cfg) (BUCKET_PATH cfg)
                                    access_key secret_key token)) (Raised e)])
      | Inr _ \<Rightarrow>
          (Inr (), [Call (AssumeRole (IAM_ROLE_ARN cfg) ''CreatePostgresSession'') Returned,
                    Call (Execute (format_load (BUCKET_NAME cfg) (BUCKET_PATH cfg)
                                     access_key secret_key token)) Returned]))"
  using assms
  by (auto simp: populate_def pure_value_def andthen_def sts_assume_role_def perform_def
        subscript_def split: sum.splits option.splits prod.splits)


section \<open>The catalog walk\<close>

lemma tables_deleted_first_shift:
  assumes "tables_deleted_first env (h @ A) pre d"
  shows "tables_deleted_first env h (A @ pre) d"
proof -
  from assms obtain pre0 response tables names block where
    "pre = pre0 @ Call (GetTables d) Returned # block"
    "glue_get_tables env ((h @ A) @ pre0) d = Inr response"
    "response ''TableList'' = Some tables"
    "map (\<lambda>table. table ''Name'') tables = map Some names"
    "calls block = map (DeleteTable d) names"
    unfolding tables_deleted_first_def by blast
  then show ?thesis
    unfolding tables_deleted_first_def
    by (intro exI [of _ "A @ pre0"] exI [of _ response] exI [of _ tables] exI [of _ names]
          exI [of _ block]) simp
qed

lemma append_split:
  "A @ B = pre @ x # post \<Longrightarrow>
   (\<exists>post'. A = pre @ x # post') \<or> (\<exists>pre'. pre = A @ pre' \<and> B = pre' @ x # post)"
  by (auto simp: append_eq_append_conv2 append_eq_Cons_conv Cons_eq_append_conv)

lemma orderedD:
  "ordered env m \<Longrightarrow> snd (m h) = pre @ Call (DeleteDatabase d) out # post \<Longrightarrow>
   d \<noteq> ''default'' \<and> tables_deleted_first env h pre d"
  unfolding ordered_def by blast

lemma ordered_append:
  assumes A: "\<And>pre post. A = pre @ Call (DeleteDatabase d) out # post \<Longrightarrow>
                 d \<noteq> ''default'' \<and> tables_deleted_first env h pre d"
    and B: "\<And>pre post. B = pre @ Call (DeleteDatabase d) out # post \<Longrightarrow>
                 d \<noteq> ''default'' \<and> tables_deleted_first env (h @ A) pre d"
    and eq: "A @ B = pre @ Call (DeleteDatabase d) out # post"
  shows "d \<noteq> ''default'' \<and> tables_deleted_first env h pre d"
  using append_split [OF eq]
proof
  assume "\<exists>post'. A = pre @ Call (DeleteDatabase d) out # post'"
  then show ?thesis using A by blast
next
  assume "\<exists>pre'. pre = A @ pre' \<and> B = pre' @ Call (DeleteDatabase d) out # post"
  then obtain pre' where p: "pre = A @ pre'" "B = pre' @ Call (DeleteDatabase d) out # post"
    by blast
  from B [OF p(2)] p(1) show ?thesis
    by (simp add: tables_deleted_first_shift)
qed

lemma ordered_andthen:
  assumes m: "ordered env m" and f: "\<And>x. ordered env (f x)"
  shows "ordered env (andthen m f)"
  unfolding ordered_def
proof (intro allI impI)
  fix h pre d out post
  assume eq: "snd (andthen m f h) = pre @ Call (DeleteDatabase d) out # post"
  show "d \<noteq> ''default'' \<and> tables_deleted_first env h pre d"
  proof (cases "fst (m h)")
    case (Inl e)
    with eq have "snd (m h) = pre @ Call (DeleteDatabase d) out # post"
      by (simp add: snd_andthen)
    then show ?thesis by (rule orderedD [OF m])
  next
    case (Inr x)
    with eq have e: "snd (m h) @ snd (f x (h @ snd (m h))) = pre @ Call (DeleteDatabase d) out # post"
      by (simp add: snd_andthen)
    show ?thesis
      by (rule ordered_append [OF _ _ e]) (erule orderedD [OF m], erule orderedD [OF f])
  qed
qed

lemma ordered_try_except:
  assumes m: "ordered env m" and k: "\<And>e. ordered env (k e)"
  shows "ordered env (try_except m k)"
  unfolding ordered_def
proof (intro allI impI)
  fix h pre d out post
  assume eq: "snd (try_except m k h) = pre @ Call (DeleteDatabase d) out # post"
  show "d \<noteq> ''default'' \<and> tables_deleted_first env h pre d"
  proof (cases "fst (m h)")
    case (Inr x)
    with eq have "snd (m h) = pre @ Call (DeleteDatabase d) out # post"
      by (simp add: snd_try_except)
    then show ?thesis by (rule orderedD [OF m])
  next
    case (Inl e)
    with eq have e: "snd (m h) @ snd (k e (h @ snd (m h))) = pre @ Call (DeleteDatabase d) out # post"
      by (simp add: snd_try_except)
    show ?thesis
      by (rule ordered_append [OF _ _ e]) (erule orderedD [OF m], erule orderedD [OF k])
  qed
qed

lemma no_delete_database:
  assumes "filter is_delete_database (calls evs) = []"
  shows "evs \<noteq> pre @ Call (DeleteDatabase d) out # post"
proof
  assume "evs = pre @ Call (DeleteDatabase d) out # post"
  then have "filter is_delete_database (calls evs) \<noteq> []" by simp
  with assms show False by simp
qed

lemma ordered_free: "never_calls is_delete_database m \<Longrightarrow> ordered env m"
  unfolding ordered_def
  using no_delete_database never_callsD by blast

lemma ordered_for_each: "(\<And>x. ordered env (body x)) \<Longrightarrow> ordered env (for_each xs body)"
proof (induction xs)
  case Nil
  show ?case by (simp add: ordered_free never_calls_pure_value)
next
  case (Cons x xs)
  then show ?case by (simp add: ordered_andthen)
qed


lemma never_calls_try_except:
  "never_calls P m \<Longrightarrow> (\<And>e. never_calls P (k e)) \<Longrightarrow> never_calls P (try_except m k)"
  by (auto simp: never_calls_def snd_try_except split: sum.splits)

lemma never_calls_for_each:
  "(\<And>x. never_calls P (body x)) \<Longrightarrow> never_calls P (for_each xs body)"
  by (induction xs) (auto intro: never_calls_andthen never_calls_pure_value)

lemma never_calls_delete_table:
  "\<not> P (DeleteTable d t) \<Longrightarrow> never_calls P (delete_table env d t)"
  by (simp add: never_calls_def calls_delete_table)

lemma tables_loop_names:
  "fst (for_each tables (\<lambda>table. andthen (subscript table ''Name'')
          (\<lambda>glue_table_name. delete_table env d glue_table_name)) h) = Inr () \<Longrightarrow>
   \<exists>names. map (\<lambda>table. table ''Name'') tables = map Some names
     \<and> calls (snd (for_each tables (\<lambda>table. andthen (subscript table ''Name'')
          (\<lambda>glue_table_name. delete_table env d glue_table_name)) h))
         = map (DeleteTable d) names"
proof (induction tables arbitrary: h)
  case Nil
  show ?case by (simp add: pure_value_def)
next
  case (Cons t ts)
  let ?body = "\<lambda>table. andthen (subscript table ''Name'')
          (\<lambda>glue_table_name. delete_table env d glue_table_name)"
  from Cons.prems obtain n where n: "t ''Name'' = Some n"
    by (cases "t ''Name''") (auto simp: fst_andthen subscript_def)
  have b: "fst (?body t h) = Inr ()" "calls (snd (?body t h)) = [DeleteTable d n]"
    using n by (simp_all add: fst_andthen snd_andthen subscript_def delete_table_total
                  calls_delete_table)
  from Cons.prems b have "fst (for_each ts ?body (h @ snd (?body t h))) = Inr ()"
    by (simp add: fst_andthen)
  from Cons.IH [OF this] obtain names where
    names: "map (\<lambda>table. table ''Name'') ts = map Some names"
      "calls (snd (for_each ts ?body (h @ snd (?body t h)))) = map (DeleteTable d) names"
    by blast
  show ?case
    by (rule exI [of _ "n # names"]) (use n b names in \<open>simp add: snd_andthen\<close>)
qed

lemma delete_database_split:
  "snd (delete_database env n h) = pre @ Call (DeleteDatabase d) out # post \<Longrightarrow>
   pre = [] \<and> d = n"
  by (auto simp: delete_database_def snd_try_except snd_andthen fst_andthen perform_def
        logger_def Cons_eq_append_conv append_eq_Cons_conv split: sum.splits)

lemma ordered_walk_database: "ordered env (walk_database env db)"
  unfolding ordered_def
proof (intro allI impI)
  fix h pre d out post
  assume eq: "snd (walk_database env db h) = pre @ Call (DeleteDatabase d) out # post"
  let ?x = "Call (DeleteDatabase d) out"
  show "d \<noteq> ''default'' \<and> tables_deleted_first env h pre d"
  proof (cases "db ''Name''")
    case None
    with eq show ?thesis by (simp add: walk_database_def snd_andthen subscript_def)
  next
    case (Some n)
    show ?thesis
    proof (cases "n = ''default''")
      case True
      with eq Some show ?thesis
        by (simp add: walk_database_def snd_andthen subscript_def pure_value_def)
    next
      case nd: False
      let ?h1 = "h @ [Call (GetTables n) Returned]"
      show ?thesis
      proof (cases "glue_get_tables env h n")
        case (Inl e)
        with eq Some nd show ?thesis
          by (auto simp: walk_database_def snd_andthen fst_andthen subscript_def perform_def
                Cons_eq_append_conv)
      next
        case (Inr response)
        show ?thesis
        proof (cases "response ''TableList''")
          case None
          with eq Some nd Inr show ?thesis
            by (auto simp: walk_database_def snd_andthen fst_andthen subscript_def perform_def
                  Cons_eq_append_conv)
        next
          case tl: (Some tables)
          let ?body = "\<lambda>table. andthen (subscript table ''Name'')
                         (\<lambda>glue_table_name. delete_table env n glue_table_name)"
          let ?L = "for_each tables ?body ?h1"
          have free: "filter is_delete_database (calls (snd ?L)) = []"
            by (rule never_callsD)
               (intro never_calls_for_each never_calls_andthen never_calls_subscript
                  never_calls_delete_table, simp)
          show ?thesis
          proof (cases "fst ?L")
            case (Inl e)
            with eq Some nd Inr tl have "Call (GetTables n) Returned # snd ?L = pre @ ?x # post"
              by (simp add: walk_database_def snd_andthen fst_andthen subscript_def perform_def)
            moreover have "filter is_delete_database (calls (Call (GetTables n) Returned # snd ?L)) = []"
              using free by simp
            ultimately show ?thesis using no_delete_database by metis
          next
            case ok: (Inr u)
            let ?D = "snd (delete_database env n (?h1 @ snd ?L))"
            from eq Some nd Inr tl ok
            have e: "(Call (GetTables n) Returned # snd ?L) @ ?D = pre @ ?x # post"
              by (simp add: walk_database_def snd_andthen fst_andthen subscript_def perform_def)
            have f2: "filter is_delete_database (calls (Call (GetTables n) Returned # snd ?L)) = []"
              using free by simp
            from append_split [OF e] no_delete_database [OF f2]
            obtain pre' where p: "pre = (Call (GetTables n) Returned # snd ?L) @ pre'"
              "?D = pre' @ ?x # post" by blast
            from delete_database_split [OF p(2)] have q: "pre' = []" "d = n" by simp_all
            from ok have "fst ?L = Inr ()" by simp
            from tables_loop_names [OF this] obtain names where
              names: "map (\<lambda>table. table ''Name'') tables = map Some names"
                "calls (snd ?L) = map (DeleteTable n) names" by blast
            have "tables_deleted_first env h pre d"
              unfolding tables_deleted_first_def
              by (intro exI [of _ "[]"] exI [of _ response] exI [of _ tables] exI [of _ names]
                    exI [of _ "snd ?L"])
                 (use p q Inr tl names in simp)
            with q nd show ?thesis by simp
          qed
        qed
      qed
    qed
  qed
qed

lemma ordered_cleanup_catalog: "ordered env (cleanup_catalog env)"
  unfolding cleanup_catalog_def
  by (intro ordered_try_except ordered_andthen ordered_for_each ordered_walk_database
        ordered_free never_calls_perform never_calls_subscript never_calls_logger)
     simp

lemma never_calls_step:
  assumes "\<And>h. calls (snd (m h)) = cs" and "filter P cs = []"
  shows "never_calls P m"
  using assms by (simp add: never_calls_def)

lemma ordered_terraform_cleanup: "ordered env (terraform_cleanup env cfg)"
  unfolding terraform_cleanup_def
  apply (intro ordered_andthen ordered_cleanup_catalog)
     apply (rule ordered_free, rule never_calls_step [OF calls_cleanup_rulesets], simp)
    apply (rule ordered_free, rule never_calls_step [OF calls_cleanup_jobs],
           simp add: filter_map comp_def)
   apply (rule ordered_free, rule never_calls_step [OF calls_cleanup_connection], simp)
  apply (rule ordered_free, rule never_calls_step [OF calls_cleanup_iam], simp)
  done


lemma never_calls_default_walk_database: "never_calls targets_default (walk_database env db)"
  unfolding walk_database_def never_calls_def
  by (auto simp: snd_andthen fst_andthen subscript_def pure_value_def perform_def
        filter_calls_tables_loop calls_delete_database
        split: option.splits sum.splits)

lemma never_calls_default_cleanup_catalog: "never_calls targets_default (cleanup_catalog env)"
  unfolding cleanup_catalog_def
  by (intro never_calls_try_except never_calls_andthen never_calls_for_each
        never_calls_default_walk_database never_calls_perform never_calls_subscript
        never_calls_logger)
     simp

section \<open>Events that cannot be answered\<close>

lemma silent_if: "silent a \<Longrightarrow> silent b \<Longrightarrow> silent (if c then a else b)"
  by simp

lemma lambda_handler_unanswerable:
  assumes "find (\<lambda>key. event key = None) send_keys = Some key"
  shows "fst (lambda_handler env cfg event h) = Inl (KeyError key)
         \<and> signals (snd (lambda_handler env cfg event h)) = []"
proof -
  let ?h1 = "h @ [Log WARNING ''Event: '' None]"
  let ?B = "andthen (subscript event ''RequestType'')
             (\<lambda>request_type.
           andthen (if request_type = CREATE then create_path env cfg else pure_value ())
             (\<lambda>_.
           andthen (subscript event ''RequestType'')
             (\<lambda>request_type.
           andthen (if request_type = DELETE then delete_path env cfg event
                    else pure_value ())
             (\<lambda>_. cfnresponse_send event SUCCESS))))"
  have send: "cfnresponse_send event st h' = (Inl (KeyError key), [])" for st h'
    by (simp add: cfnresponse_send_eq assms)
  have silent_send: "silent (cfnresponse_send event st)" for st
    by (simp add: silent_def send)
  have raised: "isl (fst (?B ?h1))"
    by (simp add: fst_andthen send split: sum.splits)
  then obtain e where e: "fst (?B ?h1) = Inl e"
    by (cases "fst (?B ?h1)") simp_all
  have "silent ?B"
    by (intro silent_intros silent_if silent_create_path silent_delete_path silent_send)
  then have quiet: "signals (snd (?B ?h1)) = []"
    by (rule silentD)
  show ?thesis
    using e quiet
    by (simp add: lambda_handler_def fst_andthen snd_andthen fst_try_except snd_try_except
          logger_def send)
qed
section \<open>The claims\<close>

text \<open>
  C1. For every lifecycle event (it carries the four keys \<open>send\<close> reads and the request
  type, and a Delete event carries the physical resource id; in particular every record
  with all six fields) and every behaviour of the collaborators, \<open>lambda_handler\<close> returns normally
  and sends exactly one completion signal, as its last action; the signal is \<open>FAILED\<close>
  if and only if the event is a Create event and the Create branch (lines 171 to 200)
  raised. In particular a Delete event always ends with \<open>SUCCESS\<close>.
\<close>

theorem C1_single_completion_signal:
  assumes "lifecycle_event event"
  shows "fst (lambda_handler env cfg event h) = Inr ()
     \<and> signals (snd (lambda_handler env cfg event h))
         = [if event ''RequestType'' = Some CREATE
               \<and> isl (fst (create_path env cfg (h @ [Log WARNING ''Event: '' None])))
            then FAILED else SUCCESS]
     \<and> last (snd (lambda_handler env cfg event h))
         = Send (if event ''RequestType'' = Some CREATE
               \<and> isl (fst (create_path env cfg (h @ [Log WARNING ''Event: '' None])))
            then FAILED else SUCCESS)"
proof -
  from assms obtain rt where rt: "event ''RequestType'' = Some rt"
    and dk: "rt = DELETE \<Longrightarrow> event ''PhysicalResourceId'' \<noteq> None"
    and ans: "answerable event"
    by (auto simp: lifecycle_event_def split: option.splits)
  have d: "fst (delete_path env cfg event h') = Inr ()" if "rt = DELETE" for h'
  proof -
    from dk [OF that] ans have "find (\<lambda>key. event key = None) delete_keys = None"
      by (auto simp: find_None_iff answerable_def send_keys_def delete_keys_def)
    then show ?thesis by (simp add: fst_delete_path)
  qed
  have sc: "\<And>h. signals (snd (create_path env cfg h)) = []"
    by (rule silentD [OF silent_create_path])
  have sd: "\<And>h. signals (snd (delete_path env cfg event h)) = []"
    by (rule silentD [OF silent_delete_path])
  show ?thesis
    using rt d sc sd
    by (cases "fst (create_path env cfg (h @ [Log WARNING ''Event: '' None]))")
       (auto simp: lambda_handler_trace [of event rt] ans Let_def CREATE_def DELETE_def)
qed

theorem C1_witness:
  "lifecycle_event create_event
   \<and> signals (snd (lambda_handler sample_env_bad_statement sample_config create_event []))
       = [FAILED]
   \<and> lifecycle_event delete_event
   \<and> signals (snd (lambda_handler sample_env_bad_statement sample_config delete_event []))
       = [SUCCESS]"
proof -
  have c: "lifecycle_event create_event"
    by (simp add: lifecycle_event_def answerable_def send_keys_def create_event_def DELETE_def)
  have d: "lifecycle_event delete_event"
    by (simp add: lifecycle_event_def answerable_def send_keys_def delete_event_def
          create_event_def)
  have e: "isl (fst (create_path sample_env_bad_statement sample_config
                       [Log WARNING ''Event: '' None]))"
    by code_simp
  have 1: "signals (snd (lambda_handler sample_env_bad_statement sample_config create_event []))
             = [FAILED]"
    using C1_single_completion_signal [OF c, of sample_env_bad_statement sample_config "[]"] e
    by (simp add: create_event_def CREATE_def)
  have 2: "signals (snd (lambda_handler sample_env_bad_statement sample_config delete_event []))
             = [SUCCESS]"
    using C1_single_completion_signal [OF d, of sample_env_bad_statement sample_config "[]"]
    by (simp add: delete_event_def create_event_def CREATE_def)
  show ?thesis using c d 1 2 by simp
qed

text \<open>
  C2. In every run of \<open>terraform_cleanup\<close>, whatever each collaborator does: the run
  returns normally; the calls of the fixed sequence are all issued, in order (the rule-set
  enumeration, the five job deletions, the database enumeration, the connection deletion,
  the policy deletion, the role deletion); and every call that raised is followed at once
  by a log record of its exception. \<open>empty_bucket\<close> likewise returns normally and
  logs what it caught.
\<close>

theorem C2_fault_isolation:
  "fst (terraform_cleanup env cfg h) = Inr ()
   \<and> filter step_call (calls (snd (terraform_cleanup env cfg h)))
       = ListDataQualityRulesets # map DeleteJob (glue_jobs cfg)
         @ [GetDatabases,
            DeleteConnection (PROJECT cfg @ ''-connection-rds''),
            DeleteRolePolicy (PROJECT cfg @ ''-glue-role'') (PROJECT cfg @ ''-glue-role-policy''),
            DeleteRole (PROJECT cfg @ ''-glue-role'')]
   \<and> raises_logged (snd (terraform_cleanup env cfg h))
   \<and> fst (empty_bucket env bucket_name h') = Inr ()
   \<and> raises_logged (snd (empty_bucket env bucket_name h'))"
proof -
  have 1: "filter step_call (calls (snd (terraform_cleanup env cfg h)))
       = ListDataQualityRulesets # map DeleteJob (glue_jobs cfg)
         @ [GetDatabases,
            DeleteConnection (PROJECT cfg @ ''-connection-rds''),
            DeleteRolePolicy (PROJECT cfg @ ''-glue-role'') (PROJECT cfg @ ''-glue-role-policy''),
            DeleteRole (PROJECT cfg @ ''-glue-role'')]"
    by (simp only: snd_terraform_cleanup Let_def calls_append filter_append
          calls_cleanup_rulesets calls_cleanup_jobs
          calls_cleanup_connection calls_cleanup_iam)
       (simp add: glue_jobs_def filter_calls_cleanup_catalog)
  have 2: "raises_logged (snd (empty_bucket env bucket_name h'))"
    by (rule well_logged_Inr [OF wl_empty_bucket empty_bucket_total])
  show ?thesis
    using 1 2 terraform_cleanup_total raises_logged_terraform_cleanup empty_bucket_total
    by blast
qed

text \<open>
  C3. In every run of \<open>terraform_cleanup\<close>: no catalog call is aimed at the database
  named \<open>"default"\<close> (its tables are not enumerated, none of them is deleted, and it is
  not passed to the database deleter); and wherever a deletion of a database \<open>d\<close> is
  issued, the events just before it are the enumeration of the tables of \<open>d\<close>, which
  returned a list in which every table has a name, followed by one deletion attempt for
  each of these tables, in the order of the list.
\<close>

theorem C3_tables_before_database:
  "filter targets_default (calls (snd (terraform_cleanup env cfg h))) = []
   \<and> (\<forall>pre d out post.
        snd (terraform_cleanup env cfg h) = pre @ Call (DeleteDatabase d) out # post
        \<longrightarrow> d \<noteq> ''default''
            \<and> (\<exists>pre0 response tables names block.
                  pre = pre0 @ Call (GetTables d) Returned # block
                  \<and> glue_get_tables env (h @ pre0) d = Inr response
                  \<and> response ''TableList'' = Some tables
                  \<and> map (\<lambda>table. table ''Name'') tables = map Some names
                  \<and> calls block = map (DeleteTable d) names))"
proof -
  have 1: "filter targets_default (calls (snd (terraform_cleanup env cfg h))) = []"
    by (simp only: snd_terraform_cleanup Let_def calls_append filter_append
          calls_cleanup_rulesets calls_cleanup_jobs calls_cleanup_connection calls_cleanup_iam
          never_callsD [OF never_calls_default_cleanup_catalog])
       (simp add: filter_map comp_def)
  have 2: "d \<noteq> ''default'' \<and> tables_deleted_first env h pre d"
    if "snd (terraform_cleanup env cfg h) = pre @ Call (DeleteDatabase d) out # post"
    for pre d out post
    using that by (rule orderedD [OF ordered_terraform_cleanup])
  show ?thesis
    using 1 2 unfolding tables_deleted_first_def by blast
qed

theorem C3_witness:
  "snd (terraform_cleanup sample_env sample_config [])
     = take 18 (snd (terraform_cleanup sample_env sample_config []))
       @ Call (DeleteDatabase ''db1'') Returned
       # drop 19 (snd (terraform_cleanup sample_env sample_config []))
   \<and> (\<exists>pre0 response tables names block.
         take 18 (snd (terraform_cleanup sample_env sample_config []))
           = pre0 @ Call (GetTables ''db1'') Returned # block
         \<and> glue_get_tables sample_env ([] @ pre0) ''db1'' = Inr response
         \<and> response ''TableList'' = Some tables
         \<and> map (\<lambda>table. table ''Name'') tables = map Some names
         \<and> calls block = map (DeleteTable ''db1'') names)"
proof -
  have hyp: "snd (terraform_cleanup sample_env sample_config [])
     = take 18 (snd (terraform_cleanup sample_env sample_config []))
       @ Call (DeleteDatabase ''db1'') Returned
       # drop 19 (snd (terraform_cleanup sample_env sample_config []))"
    by code_simp
  from C3_tables_before_database [of sample_env sample_config "[]"] hyp show ?thesis by blast
qed

text \<open>
  C4. In every run of \<open>terraform_cleanup\<close> the calls to the identity service are
  exactly two, \<open>delete_role_policy\<close> first and \<open>delete_role\<close> second, whatever the
  outcome of the first (and of every other call).
\<close>

theorem C4_policy_before_role:
  "filter iam_call (calls (snd (terraform_cleanup env cfg h)))
     = [DeleteRolePolicy (PROJECT cfg @ ''-glue-role'') (PROJECT cfg @ ''-glue-role-policy''),
        DeleteRole (PROJECT cfg @ ''-glue-role'')]"
  by (simp only: snd_terraform_cleanup Let_def calls_append filter_append
        calls_cleanup_rulesets calls_cleanup_jobs
        calls_cleanup_connection calls_cleanup_iam)
     (simp add: glue_jobs_def filter_calls_cleanup_catalog)

text \<open>
  C5. On a Create event that can be answered, let the prologue (pre-clean, fetch, split, engine, connection)
  succeed with the statements \<open>sql_list\<close>. If the first \<open>k\<close> statements execute and
  statement \<open>k\<close> (counted from 0) raises, then after the prologue the invocation
  consists of exactly: those \<open>k\<close> executions, the failing one, the release of the
  connection, the error log record and one \<open>FAILED\<close> signal. The calls made on the
  connection are the first \<open>k + 1\<close> statements and the release: no later statement,
  no request for temporary credentials and no bulk-import statement.
\<close>

theorem C5_failing_statement:
  assumes "event ''RequestType'' = Some CREATE"
    and "answerable event"
    and "create_prologue env cfg (h @ [Log WARNING ''Event: '' None]) = (Inr sql_list, evs0)"
    and "k < length sql_list"
    and "\<forall>i<k. conn_execute env
                  ((h @ Log WARNING ''Event: '' None # evs0) @ executed (take i sql_list))
                  (sql_list ! i) = Inr ()"
    and "conn_execute env
           ((h @ Log WARNING ''Event: '' None # evs0) @ executed (take k sql_list))
           (sql_list ! k) = Inl e"
  shows "fst (lambda_handler env cfg event h) = Inr ()
     \<and> (\<exists>out exc. snd (lambda_handler env cfg event h)
           = Log WARNING ''Event: '' None # evs0 @ executed (take k sql_list)
             @ [Call (Execute (sql_list ! k)) (Raised e), Call ConnExit out,
                Log ERROR ''Error: '' (Some exc), Send FAILED])
     \<and> filter provisioning_call (calls (snd (lambda_handler env cfg event h)))
         = map Execute (take (Suc k) sql_list) @ [ConnExit]
     \<and> signals (snd (lambda_handler env cfg event h)) = [FAILED]"
proof -
  let ?H = "h @ Log WARNING ''Event: '' None # evs0"
  let ?evs = "executed (take k sql_list) @ [Call (Execute (sql_list ! k)) (Raised e)]"
  have p: "populate env cfg sql_list ?H = (Inl e, ?evs)"
    by (simp add: populate_def andthen_def for_each_execute_fails [OF assms(4,5,6)])
  have ex: "\<exists>out exc. with_exit env (populate env cfg sql_list) ?H
              = (Inl exc, ?evs @ [Call ConnExit out])"
    by (cases "conn_exit env (?H @ ?evs)") (simp_all add: with_exit_def p)
  then obtain out exc where w: "with_exit env (populate env cfg sql_list) ?H
              = (Inl exc, ?evs @ [Call ConnExit out])" by blast
  have t: "lambda_handler env cfg event h
        = (Inr (), Log WARNING ''Event: '' None # evs0 @ (?evs @ [Call ConnExit out])
                     @ [Log ERROR ''Error: '' (Some exc), Send FAILED])"
    using assms(1,2,3) by (simp add: lambda_handler_create [of event env cfg h sql_list evs0] w)
  have n: "filter provisioning_call (calls evs0) = []"
    using never_callsD [OF never_calls_create_prologue, of env cfg "h @ [Log WARNING ''Event: '' None]"]
      assms(3) by simp
  have s: "signals evs0 = []"
    using silentD [of "create_prologue env cfg" "h @ [Log WARNING ''Event: '' None]"]
      assms(3) silent_create_prologue by simp
  have c: "calls (executed (take k sql_list)) = map Execute (take k sql_list)"
    by (rule calls_executed)
  show ?thesis
    using t n s c
    by (auto simp: signals_executed filter_map comp_def take_Suc_conv_app_nth [OF assms(4)])
qed


theorem C5_witness:
  "signals (snd (lambda_handler sample_env_bad_statement sample_config create_event [])) = [FAILED]
   \<and> filter provisioning_call
         (calls (snd (lambda_handler sample_env_bad_statement sample_config create_event [])))
       = [Execute ''a;'', Execute ''b;'', ConnExit]"
proof -
  let ?h1 = "[] @ [Log WARNING ''Event: '' None]"
  let ?evs0 = "snd (create_prologue sample_env_bad_statement sample_config ?h1)"
  have 1: "create_event ''RequestType'' = Some CREATE"
    by (simp add: create_event_def CREATE_def)
  have a: "answerable create_event"
    by (simp add: answerable_def send_keys_def create_event_def)
  have "fst (create_prologue sample_env_bad_statement sample_config ?h1)
          = Inr [''a;'', ''b;'', ''c;'']"
    by code_simp
  then have 2: "create_prologue sample_env_bad_statement sample_config ?h1
          = (Inr [''a;'', ''b;'', ''c;''], ?evs0)"
    by (simp add: prod_eq_iff)
  have 3: "(1::nat) < length [''a;'', ''b;'', ''c;'']" by simp
  have 4: "\<forall>i<1::nat. conn_execute sample_env_bad_statement
              (([] @ Log WARNING ''Event: '' None # ?evs0)
                 @ executed (take i [''a;'', ''b;'', ''c;'']))
              ([''a;'', ''b;'', ''c;''] ! i) = Inr ()"
    by (simp add: sample_env_bad_statement_def)
  have 5: "conn_execute sample_env_bad_statement
              (([] @ Log WARNING ''Event: '' None # ?evs0)
                 @ executed (take 1 [''a;'', ''b;'', ''c;'']))
              ([''a;'', ''b;'', ''c;''] ! 1) = Inl (OtherError ''syntax error'')"
    by (simp add: sample_env_bad_statement_def)
  show ?thesis
    using C5_failing_statement [of create_event sample_env_bad_statement sample_config "[]"
                     "[''a;'', ''b;'', ''c;'']" ?evs0 1 "OtherError ''syntax error''",
                  OF 1 a 2 3 4 5]
    by simp
qed

text \<open>
  C6. The claim fails: no per-item delete call is ever issued. Whatever the enumeration
  returns, the only call of the rule-set step is the enumeration itself; on an account
  with one rule set the step reads the name, fails on the attribute lookup of line 99,
  logs the \<open>AttributeError\<close> and ends, and the whole run of \<open>terraform_cleanup\<close>
  contains no deletion of that rule set.
\<close>

theorem C6_rulesets_never_deleted:
  "calls (snd (cleanup_rulesets env h)) = [ListDataQualityRulesets]
   \<and> cleanup_rulesets sample_env []
       = (Inr (), [Call ListDataQualityRulesets Returned,
                   Log INFO ''Failed to delete glue rulesets. Exception: ''
                     (Some (AttributeError ''delete_data_quality_ruleset''))])
   \<and> DeleteDataQualityRuleset ''ruleset-1''
       \<notin> set (calls (snd (terraform_cleanup sample_env sample_config [])))"
proof -
  have 1: "cleanup_rulesets sample_env []
       = (Inr (), [Call ListDataQualityRulesets Returned,
                   Log INFO ''Failed to delete glue rulesets. Exception: ''
                     (Some (AttributeError ''delete_data_quality_ruleset''))])"
    by code_simp
  have 2: "DeleteDataQualityRuleset ''ruleset-1''
       \<notin> set (calls (snd (terraform_cleanup sample_env sample_config [])))"
    by code_simp
  show ?thesis using 1 2 by (simp add: calls_cleanup_rulesets)
qed

text \<open>
  C7. Reading the configuration from an environment in which \<open>DBPORT\<close> is unset raises
  \<open>ValueError\<close>: the default of line 14 is the empty string, which \<open>int\<close> rejects.
  The claim that no configuration read raises fails at the empty environment, while an
  environment that sets \<open>DBPORT\<close> to a number is read without error.
\<close>

theorem C7_unset_dbport_raises:
  "read_config Map.empty = Inl (ValueError '''')
   \<and> map_sum id DBPORT (read_config [''DBPORT'' \<mapsto> ''5432'']) = Inr 5432"
  by (simp add: read_config_def getenv_def py_int_def py_strip_def py_isspace_def
        py_unsigned_def digit_val_def int_max_str_digits_def)

text \<open>
  C8. For every event that can be answered and whose \<open>RequestType\<close> is present and is
  neither \<open>"Create"\<close> nor \<open>"Delete"\<close>, whatever the collaborators would do, the handler
  returns normally and the whole invocation is the log record of the event followed by
  one \<open>SUCCESS\<close> signal: no call is made.
\<close>

theorem C8_other_request_type:
  assumes "answerable event"
    and "event ''RequestType'' = Some request_type"
    and "request_type \<noteq> CREATE" and "request_type \<noteq> DELETE"
  shows "lambda_handler env cfg event h
           = (Inr (), [Log WARNING ''Event: '' None, Send SUCCESS])"
  using assms by (simp add: lambda_handler_trace)

theorem C8_witness:
  "answerable update_event
   \<and> update_event ''RequestType'' = Some ''Update''
   \<and> ''Update'' \<noteq> CREATE \<and> ''Update'' \<noteq> DELETE
   \<and> lambda_handler sample_env sample_config update_event []
       = (Inr (), [Log WARNING ''Event: '' None, Send SUCCESS])"
proof -
  have a: "answerable update_event"
    by (simp add: answerable_def send_keys_def update_event_def delete_event_def
          create_event_def)
  have r: "update_event ''RequestType'' = Some ''Update''"
    by (simp add: update_event_def)
  have c: "''Update'' \<noteq> CREATE" and d: "''Update'' \<noteq> DELETE"
    by (simp_all add: CREATE_def DELETE_def)
  from C8_other_request_type [OF a r c d, of sample_env sample_config "[]"] a r c d
  show ?thesis by simp
qed

text \<open>
  C9. The claim fails on a Delete event that lacks \<open>ResponseURL\<close>: the lookup error of
  line 222 is caught, but the \<open>send\<close> of line 228 needs the same key, raises
  \<open>KeyError\<close> inside the \<open>except\<close> clause, and the handler raises without any signal.
\<close>

theorem C9_counterexample:
  "delete_event_without_url ''RequestType'' = Some DELETE
   \<and> delete_event_without_url ''ResponseURL'' = None
   \<and> fst (lambda_handler sample_env sample_config delete_event_without_url [])
       = Inl (KeyError ''ResponseURL'')
   \<and> signals (snd (lambda_handler sample_env sample_config delete_event_without_url [])) = []"
  by code_simp

text \<open>
  C9, amended. Let the event lack \<open>RequestType\<close>, or be a Delete event that lacks one of
  the five keys the Delete branch reads. If it carries the four keys \<open>send\<close> reads (so
  the key it lacks is \<open>RequestType\<close> or \<open>PhysicalResourceId\<close>), the handler returns
  normally and sends exactly one signal, \<open>FAILED\<close>, right after logging the \<open>KeyError\<close>
  of a key the event lacks, and the only calls made before are those that empty the
  buckets. If it lacks one of the four, no signal is sent and the handler raises the
  \<open>KeyError\<close> of such a key.
\<close>

theorem C9_missing_key_amended:
  assumes "event ''RequestType'' = None
           \<or> (event ''RequestType'' = Some DELETE \<and> (\<exists>key \<in> set delete_keys. event key = None))"
  shows "(answerable event \<longrightarrow>
            fst (lambda_handler env cfg event h) = Inr ()
            \<and> signals (snd (lambda_handler env cfg event h)) = [FAILED]
            \<and> (\<exists>key pre. event key = None
                 \<and> snd (lambda_handler env cfg event h)
                     = pre @ [Log ERROR ''Error: '' (Some (KeyError key)), Send FAILED])
            \<and> list_all bucket_call (calls (snd (lambda_handler env cfg event h))))
         \<and> (\<not> answerable event \<longrightarrow>
              (\<exists>key \<in> set send_keys. event key = None
                 \<and> fst (lambda_handler env cfg event h) = Inl (KeyError key))
              \<and> signals (snd (lambda_handler env cfg event h)) = [])"
proof (intro conjI impI)
  assume na: "\<not> answerable event"
  then obtain key where key: "find (\<lambda>key. event key = None) send_keys = Some key"
    by (cases "find (\<lambda>key. event key = None) send_keys")
       (auto simp: find_None_iff answerable_def list_all_iff)
  then have k: "key \<in> set send_keys" "event key = None"
    by (auto simp: find_Some_iff)
  from lambda_handler_unanswerable [OF key, of env cfg h] k
  show "\<exists>key \<in> set send_keys. event key = None
          \<and> fst (lambda_handler env cfg event h) = Inl (KeyError key)"
    by blast
  from lambda_handler_unanswerable [OF key, of env cfg h]
  show "signals (snd (lambda_handler env cfg event h)) = []"
    by simp
next
  assume ans: "answerable event"
  have "fst (lambda_handler env cfg event h) = Inr ()
         \<and> signals (snd (lambda_handler env cfg event h)) = [FAILED]
         \<and> (\<exists>key pre. event key = None
              \<and> snd (lambda_handler env cfg event h)
                  = pre @ [Log ERROR ''Error: '' (Some (KeyError key)), Send FAILED])
         \<and> list_all bucket_call (calls (snd (lambda_handler env cfg event h)))"
    using assms
  proof
    assume "event ''RequestType'' = None"
    then show ?thesis
      using ans by (auto simp: lambda_handler_no_request_type)
  next
    assume a: "event ''RequestType'' = Some DELETE \<and> (\<exists>key \<in> set delete_keys. event key = None)"
    then obtain key where key: "find (\<lambda>key. event key = None) delete_keys = Some key"
      by (cases "find (\<lambda>key. event key = None) delete_keys") (auto simp: find_None_iff)
    then have none: "event key = None" by (auto simp: find_Some_iff)
    let ?h1 = "h @ [Log WARNING ''Event: '' None]"
    have f: "fst (delete_path env cfg event ?h1) = Inl (KeyError key)"
      by (simp add: fst_delete_path key)
    have t: "lambda_handler env cfg event h =
          (Inr (), Log WARNING ''Event: '' None # snd (delete_path env cfg event ?h1)
                    @ [Log ERROR ''Error: '' (Some (KeyError key)), Send FAILED])"
      using a f ans by (simp add: lambda_handler_trace [of event DELETE] CREATE_def DELETE_def)
    have s: "signals (snd (delete_path env cfg event ?h1)) = []"
      by (rule silentD [OF silent_delete_path])
    have c: "list_all bucket_call (calls (snd (delete_path env cfg event ?h1)))"
      by (rule calls_delete_path)
    have e: "\<exists>key pre. event key = None
                \<and> snd (lambda_handler env cfg event h)
                    = pre @ [Log ERROR ''Error: '' (Some (KeyError key)), Send FAILED]"
      using none t by (metis append_Cons snd_conv)
    show ?thesis using t s c e by simp
  qed
  then show "fst (lambda_handler env cfg event h) = Inr ()"
    and "signals (snd (lambda_handler env cfg event h)) = [FAILED]"
    and "\<exists>key pre. event key = None
              \<and> snd (lambda_handler env cfg event h)
                  = pre @ [Log ERROR ''Error: '' (Some (KeyError key)), Send FAILED]"
    and "list_all bucket_call (calls (snd (lambda_handler env cfg event h)))"
    by blast+
qed

theorem C9_amended_witness:
  "event_without_request_type ''RequestType'' = None
   \<and> answerable event_without_request_type
   \<and> signals (snd (lambda_handler sample_env sample_config event_without_request_type []))
       = [FAILED]
   \<and> (delete_event_without_url ''RequestType'' = Some DELETE
        \<and> (\<exists>key \<in> set delete_keys. delete_event_without_url key = None))
   \<and> \<not> answerable delete_event_without_url
   \<and> signals (snd (lambda_handler sample_env sample_config delete_event_without_url [])) = []"
proof -
  have 1: "event_without_request_type ''RequestType'' = None"
    by (simp add: event_without_request_type_def)
  have 2: "answerable event_without_request_type"
    by (simp add: answerable_def send_keys_def event_without_request_type_def)
  have 3: "delete_event_without_url ''RequestType'' = Some DELETE
        \<and> (\<exists>key \<in> set delete_keys. delete_event_without_url key = None)"
    by (simp add: delete_event_without_url_def DELETE_def delete_keys_def)
  have 4: "\<not> answerable delete_event_without_url"
    by (simp add: answerable_def send_keys_def delete_event_without_url_def)
  from C9_missing_key_amended [of event_without_request_type sample_env sample_config "[]"]
       C9_missing_key_amended [of delete_event_without_url sample_env sample_config "[]"]
       1 2 3 4
  show ?thesis by simp
qed

text \<open>
  C10. On a Create event that can be answered and whose script splits into no statement,
  the first thing after the prologue is the request for temporary credentials, whatever
  its outcome; when it returns credentials with the three keys, the bulk-import statement
  built from them is executed next; and when that statement and the release of the
  connection succeed, the invocation ends with one \<open>SUCCESS\<close> signal. The statement
  executed is the call of \<open>aws_s3.table_import_from_s3\<close> that loads
  \<open>songs.csv\<close> under the configured bucket and path into \<open>deftunes.songs\<close> with
  the three credentials, as written out in the first line of the theorem.
\<close>

theorem C10_empty_script_still_imports:
  assumes "event ''RequestType'' = Some CREATE"
    and "answerable event"
    and "create_prologue env cfg (h @ [Log WARNING ''Event: '' None]) = (Inr [], evs0)"
  shows "format_load (BUCKET_NAME cfg) (BUCKET_PATH cfg) access_key secret_key token
         = ''SELECT aws_s3.table_import_from_s3(\<newline>   'deftunes.songs', ''
           @ [CHR 0x27, CHR 0x27]
           @ '', '(format csv, HEADER true)',\<newline>   aws_commons.create_s3_uri(''
           @ [CHR 0x27] @ BUCKET_NAME cfg @ [CHR 0x27] @ '','' @ [CHR 0x27] @ BUCKET_PATH cfg
           @ ''/songs.csv','us-east-1'),\<newline>   aws_commons.create_aws_credentials(''
           @ [CHR 0x27] @ access_key @ [CHR 0x27] @ '', '' @ [CHR 0x27] @ secret_key
           @ [CHR 0x27] @ '', '' @ [CHR 0x27] @ token @ [CHR 0x27] @ '')\<newline>);''
     \<and> (\<exists>out rest. snd (lambda_handler env cfg event h)
            = Log WARNING ''Event: '' None # evs0
              @ Call (AssumeRole (IAM_ROLE_ARN cfg) ''CreatePostgresSession'') out # rest)
     \<and> (sts_client_assume_role env (h @ Log WARNING ''Event: '' None # evs0)
            (IAM_ROLE_ARN cfg) ''CreatePostgresSession'' = Inr response
        \<and> response ''Credentials'' = Some creds
        \<and> creds ''AccessKeyId'' = Some access_key
        \<and> creds ''SecretAccessKey'' = Some secret_key
        \<and> creds ''SessionToken'' = Some token
        \<longrightarrow>
          (\<exists>out rest. snd (lambda_handler env cfg event h)
            = Log WARNING ''Event: '' None # evs0
              @ Call (AssumeRole (IAM_ROLE_ARN cfg) ''CreatePostgresSession'') Returned
              # Call (Execute (format_load (BUCKET_NAME cfg) (BUCKET_PATH cfg)
                                 access_key secret_key token)) out
              # rest)
          \<and> (conn_execute env
                 (h @ Log WARNING ''Event: '' None # evs0
                    @ [Call (AssumeRole (IAM_ROLE_ARN cfg) ''CreatePostgresSession'') Returned])
                 (format_load (BUCKET_NAME cfg) (BUCKET_PATH cfg) access_key secret_key token)
                = Inr ()
              \<and> conn_exit env
                 (h @ Log WARNING ''Event: '' None # evs0
                    @ [Call (AssumeRole (IAM_ROLE_ARN cfg) ''CreatePostgresSession'') Returned,
                       Call (Execute (format_load (BUCKET_NAME cfg) (BUCKET_PATH cfg)
                                        access_key secret_key token)) Returned])
                = Inr ()
              \<longrightarrow> lambda_handler env cfg event h
                    = (Inr (),
                       Log WARNING ''Event: '' None # evs0
                       @ [Call (AssumeRole (IAM_ROLE_ARN cfg) ''CreatePostgresSession'') Returned,
                          Call (Execute (format_load (BUCKET_NAME cfg) (BUCKET_PATH cfg)
                                           access_key secret_key token)) Returned,
                          Call ConnExit Returned,
                          Send SUCCESS])))"
proof -
  let ?H = "h @ Log WARNING ''Event: '' None # evs0"
  let ?A = "Call (AssumeRole (IAM_ROLE_ARN cfg) ''CreatePostgresSession'')"
  let ?bulk = "format_load (BUCKET_NAME cfg) (BUCKET_PATH cfg) access_key secret_key token"
  note t = lambda_handler_create [of event env cfg h "[]" evs0]
  have 0: "?bulk
         = ''SELECT aws_s3.table_import_from_s3(\<newline>   'deftunes.songs', ''
           @ [CHR 0x27, CHR 0x27]
           @ '', '(format csv, HEADER true)',\<newline>   aws_commons.create_s3_uri(''
           @ [CHR 0x27] @ BUCKET_NAME cfg @ [CHR 0x27] @ '','' @ [CHR 0x27] @ BUCKET_PATH cfg
           @ ''/songs.csv','us-east-1'),\<newline>   aws_commons.create_aws_credentials(''
           @ [CHR 0x27] @ access_key @ [CHR 0x27] @ '', '' @ [CHR 0x27] @ secret_key
           @ [CHR 0x27] @ '', '' @ [CHR 0x27] @ token @ [CHR 0x27] @ '')\<newline>);''"
    by (simp add: format_load_def sq_def)
  have 1: "\<exists>out rest. snd (lambda_handler env cfg event h)
            = Log WARNING ''Event: '' None # evs0 @ ?A out # rest"
  proof -
    obtain out rest where p: "snd (populate env cfg [] ?H) = ?A out # rest"
      using populate_nil_head by blast
    obtain out' where w: "snd (with_exit env (populate env cfg []) ?H)
                            = snd (populate env cfg [] ?H) @ [Call ConnExit out']"
      using snd_with_exit by blast
    show ?thesis
      using assms p w
      by (cases "fst (with_exit env (populate env cfg []) ?H)") (simp_all add: t)
  qed
  have 2: "\<exists>out rest. snd (lambda_handler env cfg event h)
            = Log WARNING ''Event: '' None # evs0 @ ?A Returned # Call (Execute ?bulk) out # rest"
    if c: "sts_client_assume_role env ?H (IAM_ROLE_ARN cfg) ''CreatePostgresSession'' = Inr response"
      "response ''Credentials'' = Some creds" "creds ''AccessKeyId'' = Some access_key"
      "creds ''SecretAccessKey'' = Some secret_key" "creds ''SessionToken'' = Some token"
  proof -
    have "\<exists>out. snd (populate env cfg [] ?H) = [?A Returned, Call (Execute ?bulk) out]"
      by (cases "conn_execute env (?H @ [?A Returned]) ?bulk")
         (simp_all add: populate_nil_credentials [OF c])
    then obtain out where p: "snd (populate env cfg [] ?H) = [?A Returned, Call (Execute ?bulk) out]"
      by blast
    obtain out' where w: "snd (with_exit env (populate env cfg []) ?H)
                            = snd (populate env cfg [] ?H) @ [Call ConnExit out']"
      using snd_with_exit by blast
    show ?thesis
      using assms p w
      by (cases "fst (with_exit env (populate env cfg []) ?H)") (simp_all add: t)
  qed
  have 3: "lambda_handler env cfg event h
             = (Inr (), Log WARNING ''Event: '' None # evs0
                  @ [?A Returned, Call (Execute ?bulk) Returned, Call ConnExit Returned,
                     Send SUCCESS])"
    if c: "sts_client_assume_role env ?H (IAM_ROLE_ARN cfg) ''CreatePostgresSession'' = Inr response"
      "response ''Credentials'' = Some creds" "creds ''AccessKeyId'' = Some access_key"
      "creds ''SecretAccessKey'' = Some secret_key" "creds ''SessionToken'' = Some token"
    and x: "conn_execute env (?H @ [?A Returned]) ?bulk = Inr ()"
    and y: "conn_exit env (?H @ [?A Returned, Call (Execute ?bulk) Returned]) = Inr ()"
  proof -
    have p: "populate env cfg [] ?H = (Inr (), [?A Returned, Call (Execute ?bulk) Returned])"
      using x by (simp add: populate_nil_credentials [OF c])
    have w: "with_exit env (populate env cfg []) ?H
               = (Inr (), [?A Returned, Call (Execute ?bulk) Returned, Call ConnExit Returned])"
      using y by (simp add: with_exit_def p)
    show ?thesis using assms w by (simp add: t)
  qed
  show ?thesis using 0 1 2 3 by simp
qed


theorem C10_witness:
  "create_event ''RequestType'' = Some CREATE
   \<and> fst (create_prologue sample_env_empty_script sample_config
            [Log WARNING ''Event: '' None]) = Inr []
   \<and> signals (snd (lambda_handler sample_env_empty_script sample_config create_event []))
       = [SUCCESS]
   \<and> filter provisioning_call
         (calls (snd (lambda_handler sample_env_empty_script sample_config create_event [])))
       = [AssumeRole ''arn:aws:iam::1:role/import'' ''CreatePostgresSession'',
          Execute
            (''SELECT aws_s3.table_import_from_s3(\<newline>   'deftunes.songs', ''
             @ [CHR 0x27, CHR 0x27]
             @ '', '(format csv, HEADER true)',\<newline>   aws_commons.create_s3_uri('lab-bucket','labs/cfn_dependencies/c4w4a1/csv/songs.csv','us-east-1'),\<newline>   aws_commons.create_aws_credentials('AK', 'SK', 'TK')\<newline>);''),
          ConnExit]"
proof -
  let ?h1 = "[] @ [Log WARNING ''Event: '' None]"
  let ?evs0 = "snd (create_prologue sample_env_empty_script sample_config ?h1)"
  let ?creds = "[''AccessKeyId'' \<mapsto> ''AK'', ''SecretAccessKey'' \<mapsto> ''SK'',
                 ''SessionToken'' \<mapsto> ''TK'']"
  have 1: "create_event ''RequestType'' = Some CREATE"
    by (simp add: create_event_def CREATE_def)
  have a: "answerable create_event"
    by (simp add: answerable_def send_keys_def create_event_def)
  have f: "fst (create_prologue sample_env_empty_script sample_config ?h1) = Inr []"
    by code_simp
  then have 2: "create_prologue sample_env_empty_script sample_config ?h1 = (Inr [], ?evs0)"
    by (simp add: prod_eq_iff)
  have n: "filter provisioning_call (calls ?evs0) = []"
    by (rule never_callsD [OF never_calls_create_prologue])
  have s: "signals ?evs0 = []"
    by (rule silentD [OF silent_create_prologue])
  show ?thesis
    using C10_empty_script_still_imports
            [of create_event sample_env_empty_script sample_config "[]" ?evs0
                "''AK''" "''SK''" "''TK''" "[''Credentials'' \<mapsto> ?creds]" ?creds,
             OF 1 a 2]
      1 f n s
    by (simp add: sample_env_empty_script_def sample_env_def sample_config_def)
qed

end
